theory Spec2Isabelle
  imports Main "HOL-Library.Word"
begin

section \<open>C-layout structures of package tcpinfo\<close>

text \<open>
  The attribute decoders of \<^verbatim>\<open>tcpinfo/tcpinfo.go\<close> reinterpret raw bytes as Go structs
  whose layout follows the Linux headers. Only the sizes and offsets of the fields enter
  the code (through \<^verbatim>\<open>unsafe.Sizeof\<close> and \<^verbatim>\<open>unsafe.Offsetof\<close>), so a struct type is
  described by the list of its fields in declaration order. Sizes and alignments are the
  ones of Go on a 64-bit target: every field starts at the next multiple of its own size,
  and the struct size is rounded up to the largest field alignment.
\<close>

type_synonym byte = "8 word"

datatype ctype = Uint8 | Uint16 | Uint32 | Int64 | Uint64

fun csize :: "ctype \<Rightarrow> nat" where
  "csize Uint8 = 1"
| "csize Uint16 = 2"
| "csize Uint32 = 4"
| "csize Int64 = 8"
| "csize Uint64 = 8"

definition align_up :: "nat \<Rightarrow> nat \<Rightarrow> nat" where
  "align_up n a = ((n + a - 1) div a) * a"

text \<open>\<open>place pos fs\<close> lays the fields out from position \<open>pos\<close> on: name, offset, size.\<close>

fun place :: "nat \<Rightarrow> (string \<times> ctype) list \<Rightarrow> (string \<times> nat \<times> nat) list" where
  "place pos [] = []"
| "place pos ((f, t) # fs) =
     (let off = align_up pos (csize t) in (f, off, csize t) # place (off + csize t) fs)"

fun struct_end :: "nat \<Rightarrow> (string \<times> ctype) list \<Rightarrow> nat" where
  "struct_end pos [] = pos"
| "struct_end pos ((f, t) # fs) = struct_end (align_up pos (csize t) + csize t) fs"

definition struct_align :: "(string \<times> ctype) list \<Rightarrow> nat" where
  "struct_align fs = fold max (map (\<lambda>(f, t). csize t) fs) 1"

definition Sizeof :: "(string \<times> ctype) list \<Rightarrow> nat" where
  "Sizeof fs = align_up (struct_end 0 fs) (struct_align fs)"

definition Offsetof :: "(string \<times> ctype) list \<Rightarrow> string \<Rightarrow> nat" where
  "Offsetof fs f = (case map_of (place 0 fs) f of Some (off, sz) \<Rightarrow> off | None \<Rightarrow> 0)"

definition LinuxTCPInfo :: "(string \<times> ctype) list" where
  "LinuxTCPInfo =
    [(''State'', Uint8), (''CAState'', Uint8), (''Retransmits'', Uint8), (''Probes'', Uint8),
     (''Backoff'', Uint8), (''Options'', Uint8), (''WScale'', Uint8), (''AppLimited'', Uint8),
     (''RTO'', Uint32), (''ATO'', Uint32), (''SndMSS'', Uint32), (''RcvMSS'', Uint32),
     (''Unacked'', Uint32), (''Sacked'', Uint32), (''Lost'', Uint32), (''Retrans'', Uint32),
     (''Fackets'', Uint32),
     (''LastDataSent'', Uint32), (''LastAckSent'', Uint32), (''LastDataRecv'', Uint32),
     (''LastAckRecv'', Uint32),
     (''PMTU'', Uint32), (''RcvSsThresh'', Uint32), (''RTT'', Uint32), (''RTTVar'', Uint32),
     (''SndSsThresh'', Uint32), (''SndCwnd'', Uint32), (''AdvMSS'', Uint32),
     (''Reordering'', Uint32),
     (''RcvRTT'', Uint32), (''RcvSpace'', Uint32),
     (''TotalRetrans'', Uint32),
     (''PacingRate'', Int64), (''MaxPacingRate'', Int64), (''BytesAcked'', Uint64),
     (''BytesReceived'', Uint64), (''SegsOut'', Uint32), (''SegsIn'', Uint32),
     (''NotsentBytes'', Uint32), (''MinRTT'', Uint32), (''DataSegsIn'', Uint32),
     (''DataSegsOut'', Uint32),
     (''DeliveryRate'', Uint64),
     (''BusyTime'', Int64), (''RWndLimited'', Int64), (''SndBufLimited'', Int64),
     (''Delivered'', Uint32), (''DeliveredCE'', Uint32),
     (''BytesSent'', Uint64), (''BytesRetrans'', Uint64), (''DSackDups'', Uint32),
     (''ReordSeen'', Uint32)]"

definition SocketMemInfo :: "(string \<times> ctype) list" where
  "SocketMemInfo =
    [(''RmemAlloc'', Uint32), (''Rcvbuf'', Uint32), (''WmemAlloc'', Uint32),
     (''Sndbuf'', Uint32), (''FwdAlloc'', Uint32), (''WmemQueued'', Uint32),
     (''Optmem'', Uint32), (''Backlog'', Uint32), (''Drops'', Uint32)]"

definition MemInfo :: "(string \<times> ctype) list" where
  "MemInfo = [(''Rmem'', Uint32), (''Wmem'', Uint32), (''Fmem'', Uint32), (''Tmem'', Uint32)]"

definition BBRInfo :: "(string \<times> ctype) list" where
  "BBRInfo =
    [(''Bw'', Int64), (''MinRtt'', Uint32), (''PacingGain'', Uint32), (''CwndGain'', Uint32)]"

definition LastDataSentOffset :: nat where
  "LastDataSentOffset = Offsetof LinuxTCPInfo ''LastDataSent''"

definition PmtuOffset :: nat where
  "PmtuOffset = Offsetof LinuxTCPInfo ''PMTU''"


section \<open>Byte slices in memory\<close>

text \<open>
  \<^verbatim>\<open>MaybeCopy\<close> either returns a pointer into the slice it was given or allocates a new
  array, so memory is explicit: the heap is the list of the byte arrays allocated so far,
  an array's address is its index, and \<^verbatim>\<open>make\<close> appends a new array. A slice is a window
  of an array, a pointer is a position in an array.
\<close>

type_synonym heap = "byte list list"

record slice =
  s_arr :: nat
  s_off :: nat
  s_len :: nat

record pointer =
  p_arr :: nat
  p_off :: nat

datatype panic = IndexOutOfRange | SliceBoundsOutOfRange | NilDereference | DivideByZero

definition slice_bytes :: "heap \<Rightarrow> slice \<Rightarrow> byte list" where
  "slice_bytes h s = take (s_len s) (drop (s_off s) (h ! s_arr s))"

text \<open>A slice is valid in a heap when it is empty (as the nil slice is) or lies inside
  an allocated array.\<close>

definition valid_slice :: "heap \<Rightarrow> slice \<Rightarrow> bool" where
  "valid_slice h s \<longleftrightarrow>
     s_len s = 0 \<or> (s_arr s < length h \<and> s_off s + s_len s \<le> length (h ! s_arr s))"

text \<open>\<^verbatim>\<open>make([]byte, n)\<close>: a new array of \<open>n\<close> zero bytes.\<close>

definition make_bytes :: "heap \<Rightarrow> nat \<Rightarrow> heap \<times> slice" where
  "make_bytes h n = (h @ [replicate n 0], \<lparr>s_arr = length h, s_off = 0, s_len = n\<rparr>)"

text \<open>\<^verbatim>\<open>copy(dst, src)\<close>: the first \<open>min (len dst) (len src)\<close> bytes of \<open>src\<close> overwrite the
  start of \<open>dst\<close>.\<close>

definition copy_bytes :: "heap \<Rightarrow> slice \<Rightarrow> slice \<Rightarrow> heap" where
  "copy_bytes h dst src =
     (let n = min (s_len dst) (s_len src);
          bs = take n (slice_bytes h src);
          a = h ! s_arr dst
      in if n = 0 then h
         else h[s_arr dst := take (s_off dst) a @ bs @ drop (s_off dst + n) a])"

text \<open>
  \<^verbatim>\<open>MaybeCopy(src []byte, size int) unsafe.Pointer\<close>. The expression \<^verbatim>\<open>&src[0]\<close> of the
  second branch panics on an empty slice.
\<close>

definition MaybeCopy :: "heap \<Rightarrow> slice \<Rightarrow> int \<Rightarrow> panic + (heap \<times> pointer)" where
  "MaybeCopy h src sz =
     (if int (s_len src) < sz then
        (let (h1, data) = make_bytes h (nat sz);
             h2 = copy_bytes h1 data src
         in Inr (h2, \<lparr>p_arr = s_arr data, p_off = s_off data\<rparr>))
      else if s_len src = 0 then Inl IndexOutOfRange
      else Inr (h, \<lparr>p_arr = s_arr src, p_off = s_off src\<rparr>))"

text \<open>The decoders: \<^verbatim>\<open>structSize := (int)(unsafe.Sizeof(T{}))\<close>, then \<^verbatim>\<open>MaybeCopy\<close>.\<close>

definition ToLinuxTCPInfo :: "heap \<Rightarrow> slice \<Rightarrow> panic + (heap \<times> pointer)" where
  "ToLinuxTCPInfo h raw = (let structSize = int (Sizeof LinuxTCPInfo) in MaybeCopy h raw structSize)"

definition ToSockMemInfo :: "heap \<Rightarrow> slice \<Rightarrow> panic + (heap \<times> pointer)" where
  "ToSockMemInfo h raw = (let structSize = int (Sizeof SocketMemInfo) in MaybeCopy h raw structSize)"

definition ToMemInfo :: "heap \<Rightarrow> slice \<Rightarrow> panic + (heap \<times> pointer)" where
  "ToMemInfo h raw = (let structSize = int (Sizeof MemInfo) in MaybeCopy h raw structSize)"

text \<open>\<^verbatim>\<open>ToBBRInfo\<close> takes its size from \<^verbatim>\<open>MemInfo\<close>:
  \<^verbatim>\<open>structSize := (int)(unsafe.Sizeof(MemInfo{}))\<close>.\<close>

definition ToBBRInfo :: "heap \<Rightarrow> slice \<Rightarrow> panic + (heap \<times> pointer)" where
  "ToBBRInfo h raw = (let structSize = int (Sizeof MemInfo) in MaybeCopy h raw structSize)"

text \<open>Reading field \<open>f\<close> of a struct of type \<open>T\<close> viewed at pointer \<open>p\<close> touches the bytes
  \<open>[p_off p + off, p_off p + off + size)\<close> of the array \<open>p_arr p\<close>.\<close>

definition field_in_bounds :: "heap \<Rightarrow> pointer \<Rightarrow> (string \<times> ctype) list \<Rightarrow> string \<Rightarrow> bool" where
  "field_in_bounds h p T f =
     (case map_of (place 0 T) f of
        None \<Rightarrow> False
      | Some (off, sz) \<Rightarrow> p_arr p < length h \<and> p_off p + off + sz \<le> length (h ! p_arr p))"


section \<open>The inet\_diag header\<close>

text \<open>
  \<^verbatim>\<open>InetDiagSockID\<close> and \<^verbatim>\<open>InetDiagMsg\<close> of \<^verbatim>\<open>tcpinfo/tcpinfo.go\<close>. The fixed-size byte
  arrays are byte lists. \<^verbatim>\<open>Cookie()\<close> is \<^verbatim>\<open>binary.LittleEndian.Uint64(id.IDiagCookie[:])\<close>.
\<close>

record InetDiagSockID =
  IDiagSPort :: "byte list"
  IDiagDPort :: "byte list"
  IDiagSrc :: "byte list"
  IDiagDst :: "byte list"
  IDiagIf :: "byte list"
  IDiagCookie :: "byte list"

fun LittleEndian_Uint64 :: "byte list \<Rightarrow> 64 word" where
  "LittleEndian_Uint64 [] = 0"
| "LittleEndian_Uint64 (b # bs) = ucast b + push_bit 8 (LittleEndian_Uint64 bs)"

definition Cookie :: "InetDiagSockID \<Rightarrow> 64 word" where
  "Cookie sid = LittleEndian_Uint64 (take 8 (IDiagCookie sid))"

record InetDiagMsg =
  IDiagFamily :: "8 word"
  IDiagState :: "8 word"
  IDiagTimer :: "8 word"
  IDiagRetrans :: "8 word"
  ID :: InetDiagSockID
  IDiagExpires :: "32 word"
  IDiagRqueue :: "32 word"
  IDiagWqueue :: "32 word"
  IDiagUID :: "32 word"
  IDiagInode :: "32 word"


section \<open>Compare\<close>

text \<open>
  \<^verbatim>\<open>Compare(previous, current *inetdiag.ParsedMessage) ChangeType\<close>. Of the message type
  the function uses the header's \<^verbatim>\<open>IDiagState\<close> and the container \<^verbatim>\<open>Attributes\<close>, which
  it indexes by attribute type (a nil entry means the attribute is absent) and walks
  with \<^verbatim>\<open>range\<close>. The container is the list of its entries in the order \<^verbatim>\<open>range\<close>
  yields them, each a type with a pointer that may be nil: an array of pointers is the
  list of all its indices, a map the list of its keys. Indexing a type that has no entry
  gives nil. The two message pointers and their header pointers are taken to be non-nil.
\<close>

record RouteAttr =
  Value :: "byte list"

type_synonym attributes = "(nat \<times> RouteAttr option) list"

record ParsedMessage =
  InetDiagMsg :: InetDiagMsg
  Attributes :: attributes

definition attr_at :: "attributes \<Rightarrow> nat \<Rightarrow> RouteAttr option" where
  "attr_at atts tp = (case map_of atts tp of None \<Rightarrow> None | Some a \<Rightarrow> a)"

text \<open>The attribute types of \<^verbatim>\<open>linux/inet_diag.h\<close> (package \<^verbatim>\<open>inetdiag\<close>) used below.\<close>

definition INET_DIAG_MEMINFO :: nat where "INET_DIAG_MEMINFO = 1"
definition INET_DIAG_INFO :: nat where "INET_DIAG_INFO = 2"
definition INET_DIAG_CONG :: nat where "INET_DIAG_CONG = 4"

datatype ChangeType =
    NoMajorChange
  | IDiagStateChange
  | NoTCPInfo
  | NewAttribute
  | LostAttribute
  | AttributeLength
  | StateOrCounterChange
  | PacketCountChange
  | Other

text \<open>The value \<^verbatim>\<open>iota\<close> gives each constant.\<close>

fun ChangeType_int :: "ChangeType \<Rightarrow> int" where
  "ChangeType_int NoMajorChange = 0"
| "ChangeType_int IDiagStateChange = 1"
| "ChangeType_int NoTCPInfo = 2"
| "ChangeType_int NewAttribute = 3"
| "ChangeType_int LostAttribute = 4"
| "ChangeType_int AttributeLength = 5"
| "ChangeType_int StateOrCounterChange = 6"
| "ChangeType_int PacketCountChange = 7"
| "ChangeType_int Other = 8"

text \<open>\<^verbatim>\<open>bytes.Compare\<close>: lexicographic, with results \<open>-1\<close>, \<open>0\<close>, \<open>1\<close>.\<close>

fun bytes_Compare :: "byte list \<Rightarrow> byte list \<Rightarrow> int" where
  "bytes_Compare [] [] = 0"
| "bytes_Compare [] (y # ys) = - 1"
| "bytes_Compare (x # xs) [] = 1"
| "bytes_Compare (x # xs) (y # ys) =
     (if x < y then - 1 else if y < x then 1 else bytes_Compare xs ys)"

text \<open>The slice expression \<^verbatim>\<open>v[lo:]\<close> panics when \<open>lo\<close> exceeds the length of \<open>v\<close>, and
  \<^verbatim>\<open>v[:hi]\<close> when \<open>hi\<close> exceeds its capacity, for which the length stands here:
  \<^verbatim>\<open>Compare\<close> evaluates \<^verbatim>\<open>v[:LastDataSentOffset]\<close> only after \<^verbatim>\<open>v[PmtuOffset:]\<close> has
  succeeded, when the length is already at least \<^verbatim>\<open>PmtuOffset\<close>.\<close>

definition slice_from :: "byte list \<Rightarrow> nat \<Rightarrow> panic + byte list" where
  "slice_from v lo = (if lo \<le> length v then Inr (drop lo v) else Inl SliceBoundsOutOfRange)"

definition slice_to :: "byte list \<Rightarrow> nat \<Rightarrow> panic + byte list" where
  "slice_to v hi = (if hi \<le> length v then Inr (take hi v) else Inl SliceBoundsOutOfRange)"

text \<open>The loop \<^verbatim>\<open>for tp := range previous.Attributes\<close>, over the types still to visit.\<close>

fun Compare_attrs :: "nat list \<Rightarrow> attributes \<Rightarrow> attributes \<Rightarrow> ChangeType" where
  "Compare_attrs [] prev cur = NoMajorChange"
| "Compare_attrs (tp # tps) prev cur =
     (if tp = INET_DIAG_INFO then Compare_attrs tps prev cur
      else
        (case (attr_at prev tp, attr_at cur tp) of
           (None, Some b) \<Rightarrow> NewAttribute
         | (Some a, None) \<Rightarrow> LostAttribute
         | (None, None) \<Rightarrow> Compare_attrs tps prev cur
         | (Some a, Some b) \<Rightarrow>
             if length (Value a) \<noteq> length (Value b) then AttributeLength
             else if bytes_Compare (Value a) (Value b) \<noteq> 0 then Other
             else Compare_attrs tps prev cur))"

definition Compare :: "ParsedMessage \<Rightarrow> ParsedMessage \<Rightarrow> panic + ChangeType" where
  "Compare previous current =
     (if IDiagState (InetDiagMsg previous) \<noteq> IDiagState (InetDiagMsg current)
      then Inr IDiagStateChange
      else
        (case (attr_at (Attributes previous) INET_DIAG_INFO,
               attr_at (Attributes current) INET_DIAG_INFO) of
           (Some a, Some b) \<Rightarrow>
             (case (slice_from (Value a) PmtuOffset, slice_from (Value b) PmtuOffset) of
                (Inr ta, Inr tb) \<Rightarrow>
                  if bytes_Compare ta tb \<noteq> 0 then Inr StateOrCounterChange
                  else
                    (case (slice_to (Value a) LastDataSentOffset,
                           slice_to (Value b) LastDataSentOffset) of
                       (Inr ha, Inr hb) \<Rightarrow>
                         if bytes_Compare ha hb \<noteq> 0 then Inr StateOrCounterChange
                         else Inr (Compare_attrs (map fst (Attributes previous))
                                     (Attributes previous) (Attributes current))
                     | (Inl e, _) \<Rightarrow> Inl e
                     | (_, Inl e) \<Rightarrow> Inl e)
              | (Inl e, _) \<Rightarrow> Inl e
              | (_, Inl e) \<Rightarrow> Inl e)
         | _ \<Rightarrow> Inr NoTCPInfo))"

text \<open>Two payloads differ at position \<open>i\<close> when at least one of them has a byte there
  and the other has none or another one.\<close>

definition differ_at :: "byte list \<Rightarrow> byte list \<Rightarrow> nat \<Rightarrow> bool" where
  "differ_at a b i \<longleftrightarrow>
     (i < length a \<or> i < length b) \<and> \<not> (i < length a \<and> i < length b \<and> a ! i = b ! i)"


section \<open>Package saver: data\<close>

text \<open>
  A \<^verbatim>\<open>time.Time\<close> is the number of nanoseconds since the Unix epoch; the saver compares
  instants, adds a duration and formats a date. The zero \<^verbatim>\<open>time.Time{}\<close> is the first
  instant of year 1.
\<close>

definition zero_Time :: int where
  "zero_Time = - 62135596800 * 1000000000"

definition Minute :: int where
  "Minute = 60 * 1000000000"

text \<open>The TCP states of package \<^verbatim>\<open>tcp\<close> that \<^verbatim>\<open>queue\<close> names.\<close>

definition ESTABLISHED :: "8 word" where "ESTABLISHED = 1"
definition FIN_WAIT1 :: "8 word" where "FIN_WAIT1 = 4"

record Metadata =
  UUID :: string
  Sequence_md :: "64 word"
  StartTime_md :: int

text \<open>\<^verbatim>\<open>netlink.ArchivalRecord\<close>: the raw header is kept as bytes, nil is the empty list.\<close>

record ArchivalRecord =
  Timestamp :: int
  RawIDM :: "byte list"
  Attributes_AR :: attributes
  Metadata :: "Metadata option"

datatype error =
    ErrCookieZero
  | ErrNoMarshallers
  | ErrMkdirAll string
  | ErrNewWriter string
  | ErrZeroCookie
  | ErrParseFailed

text \<open>
  What the saver calls but this repository's sources do not contain is a parameter of the
  model:
  \<^item> \<open>Parse\<close>: \<^verbatim>\<open>RawIDM.Parse()\<close>, returning the header pointer (nil is \<open>None\<close>) and
    whether the error is non-nil;
  \<^item> \<open>Compare_AR\<close>: the method \<^verbatim>\<open>pm.Compare(old)\<close> of \<^verbatim>\<open>ArchivalRecord\<close>, which may panic,
    and otherwise returns the change and whether the error is non-nil;
  \<^item> \<open>FromCookie\<close>: \<^verbatim>\<open>uuid.FromCookie\<close>;
  \<^item> \<open>Format_date\<close>: \<^verbatim>\<open>Time.Format("2006/01/02")\<close>;
  \<^item> \<open>json_Marshal\<close>: \<^verbatim>\<open>json.Marshal\<close> of an \<^verbatim>\<open>ArchivalRecord\<close> (its error is ignored by
    the callers);
  \<^item> \<open>clock\<close>: the value of the \<open>n\<close>-th call of \<^verbatim>\<open>time.Now()\<close>;
  \<^item> \<open>mkdir_fails\<close>, \<open>open_fails\<close>: whether \<^verbatim>\<open>os.MkdirAll\<close> and \<^verbatim>\<open>zstd.NewWriter\<close> return
    an error for a path.
\<close>

record ext =
  Parse :: "byte list \<Rightarrow> InetDiagMsg option \<times> bool"
  Compare_AR :: "ArchivalRecord \<Rightarrow> ArchivalRecord \<Rightarrow> panic + (ChangeType \<times> bool)"
  FromCookie :: "64 word \<Rightarrow> string"
  Format_date :: "int \<Rightarrow> string"
  json_Marshal :: "ArchivalRecord \<Rightarrow> string"
  clock :: "nat \<Rightarrow> int"
  mkdir_fails :: "string \<Rightarrow> bool"
  open_fails :: "string \<Rightarrow> bool"

text \<open>
  The world outside the saver: how often the clock was read, the directories created, the
  sinks opened so far with the bytes the saver itself wrote to them, and two counters of
  package \<^verbatim>\<open>metrics\<close>. A writer (\<^verbatim>\<open>io.WriteCloser\<close>) is the index of its sink; nil is
  \<open>None\<close>.
\<close>

record sink =
  path :: string
  written :: string

record world =
  ticks :: nat
  dirs :: "string list"
  sinks :: "sink list"
  NewFileCount :: nat
  SnapshotCount :: nat

type_synonym writer = nat

text \<open>\<^verbatim>\<open>Task{Message, Writer}\<close>; a nil message asks the marshaller to close the writer.\<close>

datatype Task = Task "ArchivalRecord option" "writer option"

record Connection =
  Inode :: "32 word"
  ID_conn :: InetDiagSockID
  UID :: "32 word"
  Slice :: string
  StartTime :: int
  Sequence :: "64 word"
  Expiration :: int
  Writer :: "writer option"

record stats =
  TotalCount :: "64 word"
  NewCount :: "64 word"
  DiffCount :: "64 word"
  ExpiredCount :: "64 word"

definition IncTotalCount :: "stats \<Rightarrow> stats" where
  "IncTotalCount s = s\<lparr>TotalCount := TotalCount s + 1\<rparr>"

definition IncNewCount :: "stats \<Rightarrow> stats" where
  "IncNewCount s = s\<lparr>NewCount := NewCount s + 1\<rparr>"

definition IncDiffCount :: "stats \<Rightarrow> stats" where
  "IncDiffCount s = s\<lparr>DiffCount := DiffCount s + 1\<rparr>"

definition IncExpiredCount :: "stats \<Rightarrow> stats" where
  "IncExpiredCount s = s\<lparr>ExpiredCount := ExpiredCount s + 1\<rparr>"

text \<open>
  Modelled from the spec: package \<^verbatim>\<open>cache\<close> is not among the sources. Section 4.3 of the
  specification: two maps keyed by cookie, \<open>current\<close> and \<open>previous\<close> (here with the
  suffix \<open>_map\<close>), and a cycle counter;
  \<open>update\<close> returns the previous record for the same cookie if present, else none, stores
  the record in \<open>current\<close>, and fails with \<open>ZeroCookie\<close> if the parsed cookie is zero. A
  header that does not parse is an error as well.
\<close>

record Cache =
  current_map :: "64 word \<rightharpoonup> ArchivalRecord"
  previous_map :: "64 word \<rightharpoonup> ArchivalRecord"
  cycles :: nat

definition Cache_Update ::
  "ext \<Rightarrow> Cache \<Rightarrow> ArchivalRecord \<Rightarrow> ArchivalRecord option \<times> error option \<times> Cache" where
  "Cache_Update e c msg =
     (case Parse e (RawIDM msg) of
        (Some idm, False) \<Rightarrow>
          if Cookie (ID idm) = 0 then (None, Some ErrZeroCookie, c)
          else (previous_map c (Cookie (ID idm)), None,
                c\<lparr>current_map := (current_map c)(Cookie (ID idm) \<mapsto> msg)\<rparr>)
      | _ \<Rightarrow> (None, Some ErrParseFailed, c))"

text \<open>
  A marshaller channel is the sequence of the tasks sent on it; the saver only sends.
  The connections map holds the \<^verbatim>\<open>Connection\<close> each cookie points to; a change made
  through the pointer is a change of the map entry.
\<close>

record Saver =
  Host :: string
  Pod :: string
  FileAgeLimit :: int
  MarshalChans :: "Task list list"
  Connections :: "64 word \<rightharpoonup> Connection"
  cache :: Cache
  stats :: stats

definition send :: "Task list list \<Rightarrow> nat \<Rightarrow> Task \<Rightarrow> Task list list" where
  "send chans q t = chans[q := chans ! q @ [t]]"

definition time_Now :: "ext \<Rightarrow> world \<Rightarrow> int \<times> world" where
  "time_Now e w = (clock e (ticks w), w\<lparr>ticks := Suc (ticks w)\<rparr>)"


section \<open>Package saver: connections and files\<close>

text \<open>\<^verbatim>\<open>fmt.Sprintf("%05d", n)\<close>: decimal, zero-padded to width 5, the sign counted in.\<close>

fun decimal :: "nat \<Rightarrow> string" where
  "decimal n =
     (if n < 10 then [''0123456789'' ! n]
      else decimal (n div 10) @ [''0123456789'' ! (n mod 10)])"

declare decimal.simps [simp del]

definition Sprintf_05d :: "int \<Rightarrow> string" where
  "Sprintf_05d n =
     (if 0 \<le> n then (let d = decimal (nat n) in replicate (5 - length d) CHR ''0'' @ d)
      else (let d = decimal (nat (- n)) in CHR ''-'' # replicate (4 - length d) CHR ''0'' @ d))"

text \<open>\<^verbatim>\<open>info.ID.GetSockID()\<close> and \<^verbatim>\<open>conn.ID.CookieUint64()\<close> belong to package
  \<^verbatim>\<open>inetdiag\<close>; the connection keeps the socket id of the header, and its cookie is read
  as \<^verbatim>\<open>Cookie()\<close> reads it.\<close>

definition newConnection :: "InetDiagMsg \<Rightarrow> int \<Rightarrow> int \<Rightarrow> Connection" where
  "newConnection info timestamp now =
     \<lparr>Inode = IDiagInode info, ID_conn = ID info, UID = IDiagUID info, Slice = [],
      StartTime = timestamp, Sequence = 0, Expiration = now, Writer = None\<rparr>"

definition sink_Write :: "world \<Rightarrow> writer \<Rightarrow> string \<Rightarrow> world" where
  "sink_Write w wr bs =
     w\<lparr>sinks := (sinks w)[wr := (sinks w ! wr)\<lparr>written := written (sinks w ! wr) @ bs\<rparr>]\<rparr>"

definition header_record :: "ext \<Rightarrow> Connection \<Rightarrow> ArchivalRecord" where
  "header_record e conn =
     \<lparr>Timestamp = zero_Time, RawIDM = [], Attributes_AR = [],
      Metadata = Some \<lparr>UUID = FromCookie e (Cookie (ID_conn conn)),
                       Sequence_md = Sequence conn,
                       StartTime_md = StartTime conn\<rparr>\<rparr>"

definition writeHeader :: "ext \<Rightarrow> world \<Rightarrow> Connection \<Rightarrow> panic + world" where
  "writeHeader e w conn =
     (let msg = header_record e conn;
          bytes = json_Marshal e msg
      in case Writer conn of
           None \<Rightarrow> Inl NilDereference
         | Some wr \<Rightarrow> Inr (sink_Write (sink_Write w wr bytes) wr [CHR 0x0A]))"

definition file_name :: "ext \<Rightarrow> Connection \<Rightarrow> string" where
  "file_name e conn =
     Format_date e (StartTime conn) @ ''/'' @ FromCookie e (Cookie (ID_conn conn)) @ ''.''
       @ Sprintf_05d (sint (Sequence conn)) @ ''.jsonl.zst''"

text \<open>\<^verbatim>\<open>Rotate\<close>: the result is the returned error, the world and the connection after
  the call. When \<^verbatim>\<open>zstd.NewWriter\<close> fails the writer it returns (nil) is stored.\<close>

definition Rotate ::
  "ext \<Rightarrow> world \<Rightarrow> Connection \<Rightarrow> panic + (error option \<times> world \<times> Connection)" where
  "Rotate e w conn =
     (let datePath = Format_date e (StartTime conn) in
      if mkdir_fails e datePath then Inr (Some (ErrMkdirAll datePath), w, conn)
      else
        (let w1 = w\<lparr>dirs := dirs w @ [datePath]\<rparr>;
             name = file_name e conn
         in if open_fails e name
            then Inr (Some (ErrNewWriter name), w1, conn\<lparr>Writer := None\<rparr>)
            else
              (let conn1 = conn\<lparr>Writer := Some (length (sinks w1))\<rparr>;
                   w2 = w1\<lparr>sinks := sinks w1 @ [\<lparr>path = name, written = []\<rparr>]\<rparr>
               in case writeHeader e w2 conn1 of
                    Inl p \<Rightarrow> Inl p
                  | Inr w3 \<Rightarrow>
                      (let w4 = w3\<lparr>NewFileCount := NewFileCount w3 + 1\<rparr>;
                           conn2 = conn1\<lparr>Expiration := Expiration conn1 + 10 * Minute\<rparr>;
                           conn3 = conn2\<lparr>Sequence := Sequence conn2 + 1\<rparr>
                       in Inr (None, w4, conn3)))))"


section \<open>Package saver: queue, endConn, swapAndQueue\<close>

text \<open>The part of \<^verbatim>\<open>queue\<close> after the connection has been found or created: \<open>q\<close> is the
  index of the marshaller channel, \<open>conn\<close> the connection the map holds for \<open>cookie\<close>.\<close>

definition queue_conn ::
  "ext \<Rightarrow> world \<Rightarrow> Saver \<Rightarrow> nat \<Rightarrow> 64 word \<Rightarrow> Connection \<Rightarrow> ArchivalRecord
     \<Rightarrow> panic + (error option \<times> world \<times> Saver)" where
  "queue_conn e w svr q cookie conn msg =
     (let (now, w1) = time_Now e w;
          expired = (Expiration conn < now \<and> Writer conn \<noteq> None);
          chans1 = (if expired then send (MarshalChans svr) q (Task None (Writer conn))
                    else MarshalChans svr);
          conn1 = (if expired then conn\<lparr>Writer := None\<rparr> else conn);
          svr1 = svr\<lparr>MarshalChans := chans1, Connections := (Connections svr)(cookie \<mapsto> conn1)\<rparr>
      in if Writer conn1 = None then
           (case Rotate e w1 conn1 of
              Inl p \<Rightarrow> Inl p
            | Inr (Some err, w2, conn2) \<Rightarrow>
                Inr (Some err, w2, svr1\<lparr>Connections := (Connections svr1)(cookie \<mapsto> conn2)\<rparr>)
            | Inr (None, w2, conn2) \<Rightarrow>
                Inr (None, w2,
                     svr1\<lparr>Connections := (Connections svr1)(cookie \<mapsto> conn2),
                          MarshalChans := send chans1 q (Task (Some msg) (Writer conn2))\<rparr>))
         else
           Inr (None, w1, svr1\<lparr>MarshalChans := send chans1 q (Task (Some msg) (Writer conn1))\<rparr>))"

text \<open>\<^verbatim>\<open>queue\<close>. After a failed \<^verbatim>\<open>Parse\<close> the code only logs and goes on to read
  \<^verbatim>\<open>idm.ID\<close>, which panics when \<^verbatim>\<open>idm\<close> is nil.\<close>

definition queue ::
  "ext \<Rightarrow> world \<Rightarrow> Saver \<Rightarrow> ArchivalRecord \<Rightarrow> panic + (error option \<times> world \<times> Saver)" where
  "queue e w svr msg =
     (case fst (Parse e (RawIDM msg)) of
        None \<Rightarrow> Inl NilDereference
      | Some idm \<Rightarrow>
          (let cookie = Cookie (ID idm) in
           if cookie = 0 then Inr (Some ErrCookieZero, w, svr)
           else if length (MarshalChans svr) < 1 then Inr (Some ErrNoMarshallers, w, svr)
           else
             (let q = unat cookie mod length (MarshalChans svr) in
              case Connections svr cookie of
                None \<Rightarrow>
                  if FIN_WAIT1 \<le> IDiagState idm then Inr (None, w, svr)
                  else
                    (let (now, w1) = time_Now e w;
                         conn = newConnection idm (Timestamp msg) now;
                         svr1 = svr\<lparr>Connections := (Connections svr)(cookie \<mapsto> conn)\<rparr>
                     in queue_conn e w1 svr1 q cookie conn msg)
              | Some conn \<Rightarrow> queue_conn e w svr q cookie conn msg)))"

text \<open>\<^verbatim>\<open>endConn\<close>. The index expression \<^verbatim>\<open>cookie%uint64(len(svr.MarshalChans))\<close> panics
  when there is no marshaller.\<close>

definition endConn :: "Saver \<Rightarrow> 64 word \<Rightarrow> panic + Saver" where
  "endConn svr cookie =
     (if length (MarshalChans svr) = 0 then Inl DivideByZero
      else
        (let q = unat cookie mod length (MarshalChans svr) in
         case Connections svr cookie of
           None \<Rightarrow> Inr svr
         | Some conn \<Rightarrow>
             if Writer conn \<noteq> None then
               Inr (svr\<lparr>MarshalChans := send (MarshalChans svr) q (Task None (Writer conn)),
                        Connections := (Connections svr)(cookie := None)\<rparr>)
             else Inr svr))"

definition count_snapshot :: "world \<Rightarrow> world" where
  "count_snapshot w = w\<lparr>SnapshotCount := SnapshotCount w + 1\<rparr>"

text \<open>\<^verbatim>\<open>swapAndQueue\<close>. The errors of \<^verbatim>\<open>queue\<close> are logged and dropped. The comparison
  \<^verbatim>\<open>oldIDM.ID != pmIDM.ID\<close> reads both headers.\<close>

definition swapAndQueue ::
  "ext \<Rightarrow> world \<Rightarrow> Saver \<Rightarrow> ArchivalRecord \<Rightarrow> panic + (world \<times> Saver)" where
  "swapAndQueue e w svr pm =
     (let svr1 = svr\<lparr>stats := IncTotalCount (stats svr)\<rparr>;
          (old, err, c) = Cache_Update e (cache svr1) pm;
          svr2 = svr1\<lparr>cache := c\<rparr>
      in if err \<noteq> None then Inr (w, svr2)
         else
           (case old of
              None \<Rightarrow>
                (let svr3 = svr2\<lparr>stats := IncNewCount (stats svr2)\<rparr>;
                     w1 = count_snapshot w
                 in case queue e w1 svr3 pm of
                      Inl p \<Rightarrow> Inl p
                    | Inr (qerr, w2, svr4) \<Rightarrow> Inr (w2, svr4))
            | Some old_rec \<Rightarrow>
                (let (oldIDM, err1) = Parse e (RawIDM old_rec) in
                 if err1 then Inr (w, svr2)
                 else
                   (let (pmIDM, err2) = Parse e (RawIDM pm) in
                    if err2 then Inr (w, svr2)
                    else if oldIDM = None \<or> pmIDM = None then Inl NilDereference
                    else
                      (case Compare_AR e pm old_rec of
                         Inl p \<Rightarrow> Inl p
                       | Inr (change, err3) \<Rightarrow>
                           if err3 then Inr (w, svr2)
                           else if ChangeType_int NoMajorChange < ChangeType_int change then
                             (let svr3 = svr2\<lparr>stats := IncDiffCount (stats svr2)\<rparr>;
                                  w1 = count_snapshot w
                              in case queue e w1 svr3 pm of
                                   Inl p \<Rightarrow> Inl p
                                 | Inr (qerr, w2, svr4) \<Rightarrow> Inr (w2, svr4))
                           else Inr (w, svr2))))))"

text \<open>A sequence of calls of \<^verbatim>\<open>swapAndQueue\<close>, as \<^verbatim>\<open>handleType\<close> makes them; a panic ends
  the program.\<close>

fun swapAndQueue_all ::
  "ext \<Rightarrow> world \<Rightarrow> Saver \<Rightarrow> ArchivalRecord list \<Rightarrow> panic + (world \<times> Saver)" where
  "swapAndQueue_all e w svr [] = Inr (w, svr)"
| "swapAndQueue_all e w svr (pm # pms) =
     (case swapAndQueue e w svr pm of
        Inl p \<Rightarrow> Inl p
      | Inr (w1, svr1) \<Rightarrow> swapAndQueue_all e w1 svr1 pms)"


text \<open>\<^verbatim>\<open>NewSaver\<close>: \<open>numMarshaller\<close> channels, no connection, an empty cache, zero counters.\<close>

definition NewCache :: Cache where
  "NewCache = \<lparr>current_map = Map.empty, previous_map = Map.empty, cycles = 0\<rparr>"

definition NewSaver :: "string \<Rightarrow> string \<Rightarrow> int \<Rightarrow> Saver" where
  "NewSaver host pod numMarshaller =
     \<lparr>Host = host, Pod = pod, FileAgeLimit = 10 * Minute,
      MarshalChans = replicate (nat numMarshaller) [],
      Connections = Map.empty, cache = NewCache,
      stats = \<lparr>TotalCount = 0, NewCount = 0, DiffCount = 0, ExpiredCount = 0\<rparr>\<rparr>"


section \<open>MessageSaverLoop: throughput accounting\<close>

text \<open>
  The second half of the loop body of \<^verbatim>\<open>MessageSaverLoop\<close> works on local variables of
  the loop and on metrics only. Its state is the record \<open>loop_state\<close>; what the first half
  of an iteration hands over is the record \<open>cycle_input\<close>: the time of the block, the four
  sums returned by the two calls of \<^verbatim>\<open>handleType\<close>, and the sums \<open>rs\<close> and \<open>rr\<close> over the
  connections that \<^verbatim>\<open>EndCycle\<close> reported. The byte counts are \<^verbatim>\<open>uint64\<close>.

  A histogram is the list of the differences it was given to observe; the code passes
  \<^verbatim>\<open>8 * float64(difference)\<close>.
\<close>

definition maxSwitchSpeed :: nat where
  "maxSwitchSpeed = 10000000000"

text \<open>The constant expression \<^verbatim>\<open>10*maxSwitchSpeed/8\<close>, converted to \<^verbatim>\<open>uint64\<close>.\<close>

definition capacity :: "64 word" where
  "capacity = of_nat (10 * maxSwitchSpeed div 8)"

record cycleStats =
  live4 :: "64 word"
  live6 :: "64 word"
  closed :: "64 word"

definition total :: "cycleStats \<Rightarrow> 64 word" where
  "total cs = live4 cs + live6 cs + closed cs"

record loop_state =
  lastSent :: cycleStats
  lastReceived :: cycleStats
  reportedSent :: "64 word"
  reportedReceived :: "64 word"
  sentClosed :: "64 word"
  receivedClosed :: "64 word"
  lastReportTime :: int
  ErrorCount :: "string \<Rightarrow> nat"
  SendRateHistogram :: "64 word list"
  ReceiveRateHistogram :: "64 word list"

record cycle_input =
  V4Time_Unix :: int
  sent_live4 :: "64 word"
  received_live4 :: "64 word"
  sent_live6 :: "64 word"
  received_live6 :: "64 word"
  rs :: "64 word"
  rr :: "64 word"

definition loop_init :: loop_state where
  "loop_init =
     \<lparr>lastSent = \<lparr>live4 = 0, live6 = 0, closed = 0\<rparr>,
      lastReceived = \<lparr>live4 = 0, live6 = 0, closed = 0\<rparr>,
      reportedSent = 0, reportedReceived = 0, sentClosed = 0, receivedClosed = 0,
      lastReportTime = - 62135596800,
      ErrorCount = (\<lambda>l. 0), SendRateHistogram = [], ReceiveRateHistogram = []\<rparr>"

definition Inc_ErrorCount :: "string \<Rightarrow> loop_state \<Rightarrow> loop_state" where
  "Inc_ErrorCount l s = s\<lparr>ErrorCount := (ErrorCount s)(l := ErrorCount s l + 1)\<rparr>"

definition report_sent :: "64 word \<Rightarrow> loop_state \<Rightarrow> loop_state" where
  "report_sent totalSent s =
     (if capacity + reportedSent s < totalSent \<or> totalSent < reportedSent s then
        (if totalSent < reportedSent s then Inc_ErrorCount ''totalSent < reportedSent'' s
         else Inc_ErrorCount ''totalSent-reportedSent exceeds network capacity'' s)
      else s\<lparr>SendRateHistogram := SendRateHistogram s @ [totalSent - reportedSent s],
             reportedSent := totalSent\<rparr>)"

definition report_received :: "64 word \<Rightarrow> loop_state \<Rightarrow> loop_state" where
  "report_received totalReceived s =
     (if capacity + reportedReceived s < totalReceived \<or> totalReceived < reportedReceived s then
        (if totalReceived < reportedReceived s
         then Inc_ErrorCount ''totalReceived < reportedReceived'' s
         else Inc_ErrorCount ''totalReceived-reportedReceived exceeds network capacity'' s)
      else s\<lparr>ReceiveRateHistogram :=
               ReceiveRateHistogram s @ [totalReceived - reportedReceived s],
             reportedReceived := totalReceived\<rparr>)"

text \<open>The totals an iteration computes: \<^verbatim>\<open>sent.total()\<close> and \<^verbatim>\<open>received.total()\<close> after
  \<^verbatim>\<open>sentClosed += rs\<close> and \<^verbatim>\<open>receivedClosed += rr\<close>.\<close>

definition sent_of :: "loop_state \<Rightarrow> cycle_input \<Rightarrow> cycleStats" where
  "sent_of s i = \<lparr>live4 = sent_live4 i, live6 = sent_live6 i, closed = sentClosed s + rs i\<rparr>"

definition received_of :: "loop_state \<Rightarrow> cycle_input \<Rightarrow> cycleStats" where
  "received_of s i =
     \<lparr>live4 = received_live4 i, live6 = received_live6 i, closed = receivedClosed s + rr i\<rparr>"

definition loop_body :: "loop_state \<Rightarrow> cycle_input \<Rightarrow> loop_state" where
  "loop_body s i =
     (let sent = sent_of s i;
          received = received_of s i;
          s1 = s\<lparr>sentClosed := sentClosed s + rs i, receivedClosed := receivedClosed s + rr i\<rparr>;
          s2 = (if lastReportTime s1 < V4Time_Unix i
                then (report_received (total received) (report_sent (total sent) s1))
                       \<lparr>lastReportTime := V4Time_Unix i\<rparr>
                else s1)
      in s2\<lparr>lastSent := sent, lastReceived := received\<rparr>)"

fun MessageSaverLoop_accounting :: "loop_state \<Rightarrow> cycle_input list \<Rightarrow> loop_state" where
  "MessageSaverLoop_accounting s [] = s"
| "MessageSaverLoop_accounting s (i # is) = MessageSaverLoop_accounting (loop_body s i) is"


section \<open>Concrete inputs\<close>

text \<open>A header of an established IPv4 connection with cookie \<open>0xAAAA\<close>, used where a
  statement is evaluated on concrete records.\<close>

definition sockid0 :: InetDiagSockID where
  "sockid0 =
     \<lparr>IDiagSPort = [31, 144], IDiagDPort = [0, 80],
      IDiagSrc = [10, 0, 0, 1] @ replicate 12 0, IDiagDst = [10, 0, 0, 2] @ replicate 12 0,
      IDiagIf = [0, 0, 0, 0], IDiagCookie = [170, 170, 0, 0, 0, 0, 0, 0]\<rparr>"

definition hdr0 :: InetDiagMsg where
  "hdr0 =
     \<lparr>IDiagFamily = 2, IDiagState = 1, IDiagTimer = 0, IDiagRetrans = 0, ID = sockid0,
      IDiagExpires = 0, IDiagRqueue = 0, IDiagWqueue = 0, IDiagUID = 1000, IDiagInode = 7\<rparr>"

text \<open>Stand-ins for the functions of other packages: the first byte of a raw header is
  the state, the other bytes are the cookie; records are compared by \<open>Compare\<close> on their
  parsed headers and attributes.\<close>

definition parse0 :: "byte list \<Rightarrow> InetDiagMsg option \<times> bool" where
  "parse0 raw =
     (case raw of
        [] \<Rightarrow> (None, True)
      | st # ck \<Rightarrow> (Some (hdr0\<lparr>IDiagState := st, ID := sockid0\<lparr>IDiagCookie := ck\<rparr>\<rparr>), False))"

definition compare0 :: "ArchivalRecord \<Rightarrow> ArchivalRecord \<Rightarrow> panic + (ChangeType \<times> bool)" where
  "compare0 pm old =
     (case (fst (parse0 (RawIDM old)), fst (parse0 (RawIDM pm))) of
        (Some ho, Some hp) \<Rightarrow>
          (case Compare \<lparr>InetDiagMsg = ho, Attributes = Attributes_AR old\<rparr>
                        \<lparr>InetDiagMsg = hp, Attributes = Attributes_AR pm\<rparr> of
             Inl pn \<Rightarrow> Inl pn
           | Inr c \<Rightarrow> Inr (c, False))
      | _ \<Rightarrow> Inr (NoMajorChange, True))"

definition ext0 :: ext where
  "ext0 =
     \<lparr>Parse = parse0, Compare_AR = compare0,
      FromCookie = (\<lambda>c. ''host_1_'' @ decimal (unat c)),
      Format_date = (\<lambda>t. ''2019/03/01''),
      json_Marshal = (\<lambda>r. case Metadata r of
                             None \<Rightarrow> ''{}''
                           | Some m \<Rightarrow> ''{'' @ UUID m @ '' '' @ decimal (unat (Sequence_md m)) @ ''}''),
      clock = (\<lambda>n. 1000 + int n),
      mkdir_fails = (\<lambda>p. False), open_fails = (\<lambda>p. False)\<rparr>"

definition world0 :: world where
  "world0 = \<lparr>ticks = 0, dirs = [], sinks = [], NewFileCount = 0, SnapshotCount = 0\<rparr>"

definition conn0 :: Connection where
  "conn0 = newConnection hdr0 500 900"

definition rec0 :: "byte list \<Rightarrow> ArchivalRecord" where
  "rec0 raw =
     \<lparr>Timestamp = 500, RawIDM = raw,
      Attributes_AR = [(INET_DIAG_INFO, Some \<lparr>Value = replicate 224 0\<rparr>)],
      Metadata = None\<rparr>"


section \<open>Layout facts\<close>

lemma Sizeof_LinuxTCPInfo: "Sizeof LinuxTCPInfo = 224"
  by code_simp

lemma Sizeof_MemInfo: "Sizeof MemInfo = 16"
  by code_simp

lemma Sizeof_BBRInfo: "Sizeof BBRInfo = 24"
  by code_simp

lemma LastDataSentOffset_val: "LastDataSentOffset = 44"
  by code_simp

lemma PmtuOffset_val: "PmtuOffset = 60"
  by code_simp

lemma place_BBRInfo:
  "place 0 BBRInfo =
     [(''Bw'', 0, 8), (''MinRtt'', 8, 4), (''PacingGain'', 12, 4), (''CwndGain'', 16, 4)]"
  by code_simp


section \<open>Byte comparison\<close>

lemma bytes_Compare_eq: "bytes_Compare a b = 0 \<longleftrightarrow> a = b"
  by (induction a b rule: bytes_Compare.induct) auto

lemma drop_eq_iff: "drop n a = drop n b \<longleftrightarrow> (\<forall>i\<ge>n. \<not> differ_at a b i)"
proof
  assume e: "drop n a = drop n b"
  then have "length (drop n a) = length (drop n b)" by simp
  then have l: "length a - n = length b - n" by simp
  show "\<forall>i\<ge>n. \<not> differ_at a b i"
  proof (intro allI impI)
    fix i assume ni: "n \<le> i"
    show "\<not> differ_at a b i"
    proof (cases "i < length a")
      case True
      then have ib: "i < length b" using l ni by arith
      have "drop n a ! (i - n) = drop n b ! (i - n)" using e by simp
      then have "a ! i = b ! i" using ni True ib by simp
      then show ?thesis using True ib by (simp add: differ_at_def)
    next
      case False
      then have "\<not> i < length b" using l ni by arith
      then show ?thesis using False by (simp add: differ_at_def)
    qed
  qed
next
  assume h: "\<forall>i\<ge>n. \<not> differ_at a b i"
  have l: "length a - n = length b - n"
  proof (rule ccontr)
    assume "length a - n \<noteq> length b - n"
    then have "differ_at a b (max n (min (length a) (length b)))"
      by (auto simp: differ_at_def max_def min_def)
    then show False using h by auto
  qed
  show "drop n a = drop n b"
  proof (rule nth_equalityI)
    show "length (drop n a) = length (drop n b)" using l by simp
  next
    fix i assume "i < length (drop n a)"
    then have "n + i < length a" by simp
    moreover have "\<not> differ_at a b (n + i)" using h by simp
    ultimately show "drop n a ! i = drop n b ! i"
      using l by (auto simp: differ_at_def)
  qed
qed

lemma take_eq_iff:
  "n \<le> length a \<Longrightarrow> n \<le> length b \<Longrightarrow>
   take n a = take n b \<longleftrightarrow> (\<forall>i<n. \<not> differ_at a b i)"
  by (auto simp: differ_at_def list_eq_iff_nth_eq)


section \<open>Compare: the INFO regions\<close>

lemma Compare_attrs_same:
  "\<forall>tp \<in> set tps. tp = INET_DIAG_INFO \<or> attr_at prev tp = attr_at cur tp \<Longrightarrow>
   Compare_attrs tps prev cur = NoMajorChange"
  by (induction tps) (auto simp: bytes_Compare_eq split: option.splits)

lemma Compare_reaches_loop:
  assumes "IDiagState (InetDiagMsg previous) = IDiagState (InetDiagMsg current)"
    and "attr_at (Attributes previous) INET_DIAG_INFO = Some a"
    and "attr_at (Attributes current) INET_DIAG_INFO = Some b"
    and "PmtuOffset \<le> length (Value a)" and "PmtuOffset \<le> length (Value b)"
    and "drop PmtuOffset (Value a) = drop PmtuOffset (Value b)"
    and "take LastDataSentOffset (Value a) = take LastDataSentOffset (Value b)"
  shows "Compare previous current =
           Inr (Compare_attrs (map fst (Attributes previous))
                  (Attributes previous) (Attributes current))"
proof -
  have "LastDataSentOffset \<le> length (Value a)" "LastDataSentOffset \<le> length (Value b)"
    using assms(4,5) by (simp_all add: LastDataSentOffset_val PmtuOffset_val)
  then show ?thesis
    using assms by (simp add: Compare_def slice_from_def slice_to_def bytes_Compare_eq)
qed

lemma Compare_region_change:
  assumes "IDiagState (InetDiagMsg previous) = IDiagState (InetDiagMsg current)"
    and "attr_at (Attributes previous) INET_DIAG_INFO = Some a"
    and "attr_at (Attributes current) INET_DIAG_INFO = Some b"
    and "PmtuOffset \<le> length (Value a)" and "PmtuOffset \<le> length (Value b)"
    and "drop PmtuOffset (Value a) \<noteq> drop PmtuOffset (Value b)
         \<or> take LastDataSentOffset (Value a) \<noteq> take LastDataSentOffset (Value b)"
  shows "Compare previous current = Inr StateOrCounterChange"
proof -
  have "LastDataSentOffset \<le> length (Value a)" "LastDataSentOffset \<le> length (Value b)"
    using assms(4,5) by (simp_all add: LastDataSentOffset_val PmtuOffset_val)
  then show ?thesis
    using assms by (auto simp: Compare_def slice_from_def slice_to_def bytes_Compare_eq)
qed

text \<open>
  C1, as amended. For two records with the same \<^verbatim>\<open>IDiagState\<close>, both carrying an INFO
  attribute whose payload has at least \<^verbatim>\<open>PmtuOffset\<close> bytes, and with every non-INFO
  attribute identical: if the INFO payloads differ only at positions in
  \<open>[LastDataSentOffset, PmtuOffset)\<close>, \<^verbatim>\<open>Compare\<close> returns \<^verbatim>\<open>NoMajorChange\<close>; if they
  differ at a position below \<^verbatim>\<open>LastDataSentOffset\<close> or at or after \<^verbatim>\<open>PmtuOffset\<close>, it
  returns \<^verbatim>\<open>StateOrCounterChange\<close>.
\<close>

theorem Compare_info_regions:
  assumes "IDiagState (InetDiagMsg previous) = IDiagState (InetDiagMsg current)"
    and "attr_at (Attributes previous) INET_DIAG_INFO = Some a"
    and "attr_at (Attributes current) INET_DIAG_INFO = Some b"
    and "PmtuOffset \<le> length (Value a)" and "PmtuOffset \<le> length (Value b)"
    and "\<forall>tp. tp \<noteq> INET_DIAG_INFO \<longrightarrow>
           attr_at (Attributes previous) tp = attr_at (Attributes current) tp"
  shows "((\<forall>i. differ_at (Value a) (Value b) i \<longrightarrow> LastDataSentOffset \<le> i \<and> i < PmtuOffset)
            \<longrightarrow> Compare previous current = Inr NoMajorChange)
       \<and> ((\<exists>i. differ_at (Value a) (Value b) i \<and> (i < LastDataSentOffset \<or> PmtuOffset \<le> i))
            \<longrightarrow> Compare previous current = Inr StateOrCounterChange)"
proof (intro conjI impI)
  have la: "LastDataSentOffset \<le> length (Value a)" and lb: "LastDataSentOffset \<le> length (Value b)"
    using assms(4,5) by (simp_all add: LastDataSentOffset_val PmtuOffset_val)
  {
    assume only: "\<forall>i. differ_at (Value a) (Value b) i \<longrightarrow> LastDataSentOffset \<le> i \<and> i < PmtuOffset"
    have d: "drop PmtuOffset (Value a) = drop PmtuOffset (Value b)"
      unfolding drop_eq_iff using only by auto
    have t: "take LastDataSentOffset (Value a) = take LastDataSentOffset (Value b)"
      unfolding take_eq_iff [OF la lb] using only by auto
    have "Compare_attrs (map fst (Attributes previous)) (Attributes previous) (Attributes current)
            = NoMajorChange"
      using assms(6) by (intro Compare_attrs_same) auto
    then show "Compare previous current = Inr NoMajorChange"
      using Compare_reaches_loop [OF assms(1-5) d t] by simp
  }
  {
    assume "\<exists>i. differ_at (Value a) (Value b) i \<and> (i < LastDataSentOffset \<or> PmtuOffset \<le> i)"
    then obtain i where i: "differ_at (Value a) (Value b) i"
      and r: "i < LastDataSentOffset \<or> PmtuOffset \<le> i" by blast
    have "drop PmtuOffset (Value a) \<noteq> drop PmtuOffset (Value b)
          \<or> take LastDataSentOffset (Value a) \<noteq> take LastDataSentOffset (Value b)"
      using i r unfolding drop_eq_iff take_eq_iff [OF la lb] by auto
    then show "Compare previous current = Inr StateOrCounterChange"
      by (rule Compare_region_change [OF assms(1-5)])
  }
qed

theorem Compare_info_regions_witness:
  "Compare
     \<lparr>InetDiagMsg = hdr0,
      Attributes = [(INET_DIAG_INFO, Some \<lparr>Value = replicate 224 0\<rparr>),
                    (INET_DIAG_CONG, Some \<lparr>Value = [99, 0]\<rparr>)]\<rparr>
     \<lparr>InetDiagMsg = hdr0,
      Attributes = [(INET_DIAG_INFO, Some \<lparr>Value = (replicate 224 0)[52 := 1]\<rparr>),
                    (INET_DIAG_CONG, Some \<lparr>Value = [99, 0]\<rparr>)]\<rparr>
     = Inr NoMajorChange
   \<and> Compare
     \<lparr>InetDiagMsg = hdr0,
      Attributes = [(INET_DIAG_INFO, Some \<lparr>Value = replicate 224 0\<rparr>),
                    (INET_DIAG_CONG, Some \<lparr>Value = [99, 0]\<rparr>)]\<rparr>
     \<lparr>InetDiagMsg = hdr0,
      Attributes = [(INET_DIAG_INFO, Some \<lparr>Value = (replicate 224 0)[120 := 1]\<rparr>),
                    (INET_DIAG_CONG, Some \<lparr>Value = [99, 0]\<rparr>)]\<rparr>
     = Inr StateOrCounterChange"
proof -
  let ?p = "\<lparr>InetDiagMsg = hdr0,
      Attributes = [(INET_DIAG_INFO, Some \<lparr>Value = replicate 224 0\<rparr>),
                    (INET_DIAG_CONG, Some \<lparr>Value = [99, 0]\<rparr>)]\<rparr>"
  let ?c1 = "\<lparr>InetDiagMsg = hdr0,
      Attributes = [(INET_DIAG_INFO, Some \<lparr>Value = (replicate 224 0)[52 := 1]\<rparr>),
                    (INET_DIAG_CONG, Some \<lparr>Value = [99, 0]\<rparr>)]\<rparr>"
  let ?c2 = "\<lparr>InetDiagMsg = hdr0,
      Attributes = [(INET_DIAG_INFO, Some \<lparr>Value = (replicate 224 0)[120 := 1]\<rparr>),
                    (INET_DIAG_CONG, Some \<lparr>Value = [99, 0]\<rparr>)]\<rparr>"
  have only: "\<forall>i. differ_at (replicate 224 0) ((replicate 224 (0::byte))[52 := 1]) i
                \<longrightarrow> LastDataSentOffset \<le> i \<and> i < PmtuOffset"
    by (auto simp: differ_at_def nth_list_update LastDataSentOffset_val PmtuOffset_val)
  have some: "\<exists>i. differ_at (replicate 224 0) ((replicate 224 (0::byte))[120 := 1]) i
                \<and> (i < LastDataSentOffset \<or> PmtuOffset \<le> i)"
    by (rule exI [of _ 120]) (simp add: differ_at_def PmtuOffset_val)
  have "Compare ?p ?c1 = Inr NoMajorChange"
    using only
      Compare_info_regions [of ?p ?c1 "\<lparr>Value = replicate 224 0\<rparr>"
        "\<lparr>Value = (replicate 224 0)[52 := 1]\<rparr>"]
    by (simp add: attr_at_def INET_DIAG_INFO_def INET_DIAG_CONG_def PmtuOffset_val)
  moreover have "Compare ?p ?c2 = Inr StateOrCounterChange"
    using some
      Compare_info_regions [of ?p ?c2 "\<lparr>Value = replicate 224 0\<rparr>"
        "\<lparr>Value = (replicate 224 0)[120 := 1]\<rparr>"]
    by (simp add: attr_at_def INET_DIAG_INFO_def INET_DIAG_CONG_def PmtuOffset_val)
  ultimately show ?thesis by simp
qed

text \<open>
  C1 as stated fails on INFO payloads shorter than \<^verbatim>\<open>PmtuOffset\<close>: the two payloads
  below differ at position 3, inside \<open>[0, LastDataSentOffset)\<close>, and \<^verbatim>\<open>Compare\<close> panics
  in the slice expression \<^verbatim>\<open>a.Value[PmtuOffset:]\<close> instead of returning
  \<^verbatim>\<open>StateOrCounterChange\<close>.
\<close>

theorem Compare_short_info_counterexample:
  "differ_at [1, 2, 3, 4] [1, 2, 3, 5] 3
   \<and> 3 < LastDataSentOffset
   \<and> Compare
       \<lparr>InetDiagMsg = hdr0, Attributes = [(INET_DIAG_INFO, Some \<lparr>Value = [1, 2, 3, 4]\<rparr>)]\<rparr>
       \<lparr>InetDiagMsg = hdr0, Attributes = [(INET_DIAG_INFO, Some \<lparr>Value = [1, 2, 3, 5]\<rparr>)]\<rparr>
     = Inl SliceBoundsOutOfRange"
  by (simp add: differ_at_def LastDataSentOffset_val Compare_def attr_at_def slice_from_def
      PmtuOffset_val)


section \<open>Compare: added and removed attributes\<close>

lemma Compare_attrs_skip:
  "\<forall>k \<in> set ks. k = INET_DIAG_INFO \<or> attr_at prev k = attr_at cur k \<Longrightarrow>
   Compare_attrs (ks @ tps) prev cur = Compare_attrs tps prev cur"
  by (induction ks) (auto simp: bytes_Compare_eq split: option.splits)

text \<open>
  C4, as amended. For two records with the same \<^verbatim>\<open>IDiagState\<close>, INFO present in both
  with at least \<^verbatim>\<open>PmtuOffset\<close> bytes and equal in the compared regions, \<^verbatim>\<open>Compare\<close>
  decides at the first non-INFO attribute type, in the order in which
  \<^verbatim>\<open>range previous.Attributes\<close> yields the types, whose entries differ between the two
  records: there it returns \<^verbatim>\<open>NewAttribute\<close> if the entry of \<open>previous\<close> is nil and the
  one of \<open>current\<close> is not, and \<^verbatim>\<open>LostAttribute\<close> if the entry of \<open>previous\<close> is not nil
  and the one of \<open>current\<close> is.
\<close>

theorem Compare_new_lost_attribute:
  assumes "IDiagState (InetDiagMsg previous) = IDiagState (InetDiagMsg current)"
    and "attr_at (Attributes previous) INET_DIAG_INFO = Some a"
    and "attr_at (Attributes current) INET_DIAG_INFO = Some b"
    and "PmtuOffset \<le> length (Value a)" and "PmtuOffset \<le> length (Value b)"
    and "drop PmtuOffset (Value a) = drop PmtuOffset (Value b)"
    and "take LastDataSentOffset (Value a) = take LastDataSentOffset (Value b)"
    and "map fst (Attributes previous) = ks @ tp # rest"
    and "tp \<noteq> INET_DIAG_INFO"
    and "\<forall>k \<in> set ks. k = INET_DIAG_INFO
           \<or> attr_at (Attributes previous) k = attr_at (Attributes current) k"
  shows "(attr_at (Attributes previous) tp = None \<and> attr_at (Attributes current) tp \<noteq> None
            \<longrightarrow> Compare previous current = Inr NewAttribute)
       \<and> (attr_at (Attributes previous) tp \<noteq> None \<and> attr_at (Attributes current) tp = None
            \<longrightarrow> Compare previous current = Inr LostAttribute)"
proof -
  have "Compare previous current =
          Inr (Compare_attrs (tp # rest) (Attributes previous) (Attributes current))"
    using Compare_reaches_loop [OF assms(1-7)] Compare_attrs_skip [OF assms(10)] assms(8)
    by simp
  then show ?thesis
    using assms(9) by (auto split: option.splits)
qed

theorem Compare_new_lost_attribute_witness:
  "Compare
     \<lparr>InetDiagMsg = hdr0,
      Attributes = [(0, None), (INET_DIAG_MEMINFO, Some \<lparr>Value = [7, 7]\<rparr>),
                    (INET_DIAG_INFO, Some \<lparr>Value = replicate 224 0\<rparr>), (3, None),
                    (INET_DIAG_CONG, None)]\<rparr>
     \<lparr>InetDiagMsg = hdr0,
      Attributes = [(0, None), (INET_DIAG_MEMINFO, Some \<lparr>Value = [7, 7]\<rparr>),
                    (INET_DIAG_INFO, Some \<lparr>Value = replicate 224 0\<rparr>), (3, None),
                    (INET_DIAG_CONG, Some \<lparr>Value = [99, 0]\<rparr>)]\<rparr>
     = Inr NewAttribute
   \<and> Compare
     \<lparr>InetDiagMsg = hdr0,
      Attributes = [(INET_DIAG_INFO, Some \<lparr>Value = replicate 224 0\<rparr>),
                    (INET_DIAG_CONG, Some \<lparr>Value = [99, 0]\<rparr>)]\<rparr>
     \<lparr>InetDiagMsg = hdr0,
      Attributes = [(INET_DIAG_INFO, Some \<lparr>Value = replicate 224 0\<rparr>)]\<rparr>
     = Inr LostAttribute"
proof -
  let ?p1 = "\<lparr>InetDiagMsg = hdr0,
      Attributes = [(0, None), (INET_DIAG_MEMINFO, Some \<lparr>Value = [7, 7]\<rparr>),
                    (INET_DIAG_INFO, Some \<lparr>Value = replicate 224 0\<rparr>), (3, None),
                    (INET_DIAG_CONG, None)]\<rparr>"
  let ?c1 = "\<lparr>InetDiagMsg = hdr0,
      Attributes = [(0, None), (INET_DIAG_MEMINFO, Some \<lparr>Value = [7, 7]\<rparr>),
                    (INET_DIAG_INFO, Some \<lparr>Value = replicate 224 0\<rparr>), (3, None),
                    (INET_DIAG_CONG, Some \<lparr>Value = [99, 0]\<rparr>)]\<rparr>"
  let ?p2 = "\<lparr>InetDiagMsg = hdr0,
      Attributes = [(INET_DIAG_INFO, Some \<lparr>Value = replicate 224 0\<rparr>),
                    (INET_DIAG_CONG, Some \<lparr>Value = [99, 0]\<rparr>)]\<rparr>"
  let ?c2 = "\<lparr>InetDiagMsg = hdr0,
      Attributes = [(INET_DIAG_INFO, Some \<lparr>Value = replicate 224 0\<rparr>)]\<rparr>"
  have "Compare ?p1 ?c1 = Inr NewAttribute"
    using Compare_new_lost_attribute [of ?p1 ?c1 "\<lparr>Value = replicate 224 0\<rparr>"
        "\<lparr>Value = replicate 224 0\<rparr>" "[0, INET_DIAG_MEMINFO, INET_DIAG_INFO, 3]"
        INET_DIAG_CONG "[]"]
    by (simp add: attr_at_def INET_DIAG_INFO_def INET_DIAG_CONG_def INET_DIAG_MEMINFO_def
        PmtuOffset_val)
  moreover have "Compare ?p2 ?c2 = Inr LostAttribute"
    using Compare_new_lost_attribute [of ?p2 ?c2 "\<lparr>Value = replicate 224 0\<rparr>"
        "\<lparr>Value = replicate 224 0\<rparr>" "[INET_DIAG_INFO]" INET_DIAG_CONG "[]"]
    by (simp add: attr_at_def INET_DIAG_INFO_def INET_DIAG_CONG_def PmtuOffset_val)
  ultimately show ?thesis by simp
qed

text \<open>
  C4 as stated fails. In the records below the CONG attribute is present in \<open>current\<close> and
  absent in \<open>previous\<close>, the state is the same and the INFO payloads are equal, but the
  MEMINFO attribute, which \<^verbatim>\<open>range\<close> reaches first, has changed bytes: \<^verbatim>\<open>Compare\<close>
  returns \<^verbatim>\<open>Other\<close>, not \<^verbatim>\<open>NewAttribute\<close>. The result is the same whether
  \<^verbatim>\<open>previous.Attributes\<close> ranges over the types it holds or over every index of an array.
\<close>

theorem Compare_new_attribute_counterexample:
  "attr_at [(INET_DIAG_MEMINFO, Some \<lparr>Value = [7, 7]\<rparr>),
            (INET_DIAG_INFO, Some \<lparr>Value = replicate 224 0\<rparr>)] INET_DIAG_CONG = None
   \<and> attr_at [(INET_DIAG_MEMINFO, Some \<lparr>Value = [7, 8]\<rparr>),
            (INET_DIAG_INFO, Some \<lparr>Value = replicate 224 0\<rparr>),
            (INET_DIAG_CONG, Some \<lparr>Value = [99, 0]\<rparr>)] INET_DIAG_CONG
       = Some \<lparr>Value = [99, 0]\<rparr>
   \<and> Compare
       \<lparr>InetDiagMsg = hdr0,
        Attributes = [(INET_DIAG_MEMINFO, Some \<lparr>Value = [7, 7]\<rparr>),
                      (INET_DIAG_INFO, Some \<lparr>Value = replicate 224 0\<rparr>)]\<rparr>
       \<lparr>InetDiagMsg = hdr0,
        Attributes = [(INET_DIAG_MEMINFO, Some \<lparr>Value = [7, 8]\<rparr>),
                      (INET_DIAG_INFO, Some \<lparr>Value = replicate 224 0\<rparr>),
                      (INET_DIAG_CONG, Some \<lparr>Value = [99, 0]\<rparr>)]\<rparr>
     = Inr Other
   \<and> Compare
       \<lparr>InetDiagMsg = hdr0,
        Attributes = [(0, None), (INET_DIAG_MEMINFO, Some \<lparr>Value = [7, 7]\<rparr>),
                      (INET_DIAG_INFO, Some \<lparr>Value = replicate 224 0\<rparr>), (3, None),
                      (INET_DIAG_CONG, None)]\<rparr>
       \<lparr>InetDiagMsg = hdr0,
        Attributes = [(0, None), (INET_DIAG_MEMINFO, Some \<lparr>Value = [7, 8]\<rparr>),
                      (INET_DIAG_INFO, Some \<lparr>Value = replicate 224 0\<rparr>), (3, None),
                      (INET_DIAG_CONG, Some \<lparr>Value = [99, 0]\<rparr>)]\<rparr>
     = Inr Other"
  by (simp add: Compare_def attr_at_def slice_from_def slice_to_def bytes_Compare_eq
      INET_DIAG_INFO_def INET_DIAG_CONG_def INET_DIAG_MEMINFO_def PmtuOffset_val
      LastDataSentOffset_val)



section \<open>MaybeCopy and the decoders\<close>

lemma slice_bytes_append:
  "s_arr s < length h \<Longrightarrow> slice_bytes (h @ hs) s = slice_bytes h s"
  by (simp add: slice_bytes_def nth_append)

lemma length_slice_bytes:
  "valid_slice h s \<Longrightarrow> length (slice_bytes h s) = s_len s"
  by (auto simp: valid_slice_def slice_bytes_def)

lemma MaybeCopy_short:
  assumes v: "valid_slice h src" and l: "s_len src < n"
  shows "MaybeCopy h src (int n) =
           Inr (h @ [slice_bytes h src @ replicate (n - s_len src) 0],
                \<lparr>p_arr = length h, p_off = 0\<rparr>)"
proof (cases "s_len src = 0")
  case True
  then have "slice_bytes h src = []" by (simp add: slice_bytes_def)
  then show ?thesis
    using l True by (simp add: MaybeCopy_def make_bytes_def copy_bytes_def)
next
  case False
  then have a: "s_arr src < length h" using v by (simp add: valid_slice_def)
  have len: "length (slice_bytes h src) = s_len src" by (rule length_slice_bytes [OF v])
  have m: "min n (s_len src) = s_len src" using l by simp
  have "copy_bytes (h @ [replicate n 0]) \<lparr>s_arr = length h, s_off = 0, s_len = n\<rparr> src
          = h @ [slice_bytes h src @ replicate (n - s_len src) 0]"
    using False a len by (simp add: copy_bytes_def m slice_bytes_append)
  then show ?thesis
    using l by (simp add: MaybeCopy_def make_bytes_def)
qed

text \<open>
  C2. For a raw INFO value of length \<open>L < sizeof(LinuxTCPInfo)\<close>, \<^verbatim>\<open>ToLinuxTCPInfo\<close> returns
  without panic a pointer to the start of a newly allocated array (the heap after the
  call is the heap before it with that array appended) of exactly \<open>sizeof(LinuxTCPInfo)\<close> bytes, whose
  first \<open>L\<close> bytes are the input bytes and whose other bytes are zero; the arrays that
  existed before the call, and with them the input slice, are unchanged.
\<close>

theorem ToLinuxTCPInfo_zero_pads:
  assumes "valid_slice h raw" and "s_len raw < Sizeof LinuxTCPInfo"
  shows "ToLinuxTCPInfo h raw =
           Inr (h @ [slice_bytes h raw @ replicate (Sizeof LinuxTCPInfo - s_len raw) 0],
                \<lparr>p_arr = length h, p_off = 0\<rparr>)
       \<and> length (slice_bytes h raw @ replicate (Sizeof LinuxTCPInfo - s_len raw) 0)
           = Sizeof LinuxTCPInfo
       \<and> take (s_len raw) (slice_bytes h raw @ replicate (Sizeof LinuxTCPInfo - s_len raw) 0)
           = slice_bytes h raw
       \<and> drop (s_len raw) (slice_bytes h raw @ replicate (Sizeof LinuxTCPInfo - s_len raw) 0)
           = replicate (Sizeof LinuxTCPInfo - s_len raw) 0
       \<and> slice_bytes
           (h @ [slice_bytes h raw @ replicate (Sizeof LinuxTCPInfo - s_len raw) 0]) raw
           = slice_bytes h raw"
proof -
  let ?buf = "slice_bytes h raw @ replicate (Sizeof LinuxTCPInfo - s_len raw) 0"
  have len: "length (slice_bytes h raw) = s_len raw" by (rule length_slice_bytes [OF assms(1)])
  have r: "ToLinuxTCPInfo h raw = Inr (h @ [?buf], \<lparr>p_arr = length h, p_off = 0\<rparr>)"
    using MaybeCopy_short [OF assms] by (simp add: ToLinuxTCPInfo_def)
  have same: "slice_bytes (h @ [?buf]) raw = slice_bytes h raw"
  proof (cases "s_len raw = 0")
    case True
    then show ?thesis by (simp add: slice_bytes_def)
  next
    case False
    then have "s_arr raw < length h" using assms(1) by (simp add: valid_slice_def)
    then show ?thesis by (rule slice_bytes_append)
  qed
  show ?thesis
    using r len same assms(2) by simp
qed

theorem ToLinuxTCPInfo_zero_pads_witness:
  "ToLinuxTCPInfo [[9, 1, 2, 3, 4, 9]] \<lparr>s_arr = 0, s_off = 1, s_len = 4\<rparr>
     = Inr ([[9, 1, 2, 3, 4, 9], [1, 2, 3, 4] @ replicate 220 0], \<lparr>p_arr = 1, p_off = 0\<rparr>)"
proof -
  have v: "valid_slice [[9, 1, 2, 3, 4, 9 :: byte]] \<lparr>s_arr = 0, s_off = 1, s_len = 4\<rparr>"
    by (simp add: valid_slice_def)
  have l: "s_len \<lparr>s_arr = 0, s_off = 1, s_len = 4\<rparr> < Sizeof LinuxTCPInfo"
    by (simp add: Sizeof_LinuxTCPInfo)
  show ?thesis
    using ToLinuxTCPInfo_zero_pads [OF v l]
    by (simp add: Sizeof_LinuxTCPInfo slice_bytes_def)
qed

text \<open>
  C3 fails for \<^verbatim>\<open>ToBBRInfo\<close>, which pads to \<open>sizeof(MemInfo) = 16\<close> instead of
  \<open>sizeof(BBRInfo) = 24\<close>: a raw value of 10 bytes is copied to a new array of 16 bytes,
  and the field \<^verbatim>\<open>CwndGain\<close> of the struct viewed there, at bytes 16 to 19, lies outside
  it. A raw value of 18 bytes, shorter than the struct, is not copied at all.
\<close>

theorem ToBBRInfo_pads_to_MemInfo_size:
  "ToBBRInfo [replicate 10 1] \<lparr>s_arr = 0, s_off = 0, s_len = 10\<rparr>
     = Inr ([replicate 10 1, replicate 10 1 @ replicate 6 0], \<lparr>p_arr = 1, p_off = 0\<rparr>)
   \<and> length (replicate 10 (1::byte) @ replicate 6 0) = 16
   \<and> Sizeof BBRInfo = 24
   \<and> field_in_bounds [replicate 10 1, replicate 10 1 @ replicate 6 0]
        \<lparr>p_arr = 1, p_off = 0\<rparr> BBRInfo ''CwndGain'' = False
   \<and> ToBBRInfo [replicate 18 1] \<lparr>s_arr = 0, s_off = 0, s_len = 18\<rparr>
     = Inr ([replicate 18 1], \<lparr>p_arr = 0, p_off = 0\<rparr>)
   \<and> field_in_bounds [replicate 18 1] \<lparr>p_arr = 0, p_off = 0\<rparr> BBRInfo ''CwndGain'' = False"
proof -
  have v: "valid_slice [replicate 10 (1::byte)] \<lparr>s_arr = 0, s_off = 0, s_len = 10\<rparr>"
    by (simp add: valid_slice_def)
  have "ToBBRInfo [replicate 10 1] \<lparr>s_arr = 0, s_off = 0, s_len = 10\<rparr>
     = Inr ([replicate 10 1, replicate 10 1 @ replicate 6 0], \<lparr>p_arr = 1, p_off = 0\<rparr>)"
    using MaybeCopy_short [OF v, of 16]
    by (simp add: ToBBRInfo_def Sizeof_MemInfo slice_bytes_def)
  moreover have "ToBBRInfo [replicate 18 1] \<lparr>s_arr = 0, s_off = 0, s_len = 18\<rparr>
     = Inr ([replicate 18 1], \<lparr>p_arr = 0, p_off = 0\<rparr>)"
    by (simp add: ToBBRInfo_def Sizeof_MemInfo MaybeCopy_def)
  ultimately show ?thesis
    by (simp add: Sizeof_BBRInfo field_in_bounds_def place_BBRInfo)
qed


section \<open>Rotate\<close>

lemma writeHeader_Some:
  "Writer conn = Some wr \<Longrightarrow>
   writeHeader e w conn =
     Inr (sink_Write (sink_Write w wr (json_Marshal e (header_record e conn))) wr [CHR 0x0A])"
  by (simp add: writeHeader_def)

lemma sink_Write_new:
  "sink_Write (w\<lparr>sinks := ss @ [\<lparr>path = p, written = bs\<rparr>]\<rparr>) (length ss) cs
     = w\<lparr>sinks := ss @ [\<lparr>path = p, written = bs @ cs\<rparr>]\<rparr>"
  by (simp add: sink_Write_def)

lemma header_record_Writer:
  "header_record e (conn\<lparr>Writer := x\<rparr>) = header_record e conn"
  by (simp add: header_record_def)

lemma Rotate_success:
  assumes "\<not> mkdir_fails e (Format_date e (StartTime conn))"
    and "\<not> open_fails e (file_name e conn)"
  shows "Rotate e w conn =
     Inr (None,
          w\<lparr>dirs := dirs w @ [Format_date e (StartTime conn)],
            sinks := sinks w @
              [\<lparr>path = file_name e conn,
                written = json_Marshal e (header_record e conn) @ [CHR 0x0A]\<rparr>],
            NewFileCount := NewFileCount w + 1\<rparr>,
          conn\<lparr>Writer := Some (length (sinks w)),
               Expiration := Expiration conn + 10 * Minute,
               Sequence := Sequence conn + 1\<rparr>)"
proof -
  let ?w1 = "w\<lparr>dirs := dirs w @ [Format_date e (StartTime conn)]\<rparr>"
  let ?conn1 = "conn\<lparr>Writer := Some (length (sinks w))\<rparr>"
  let ?w2 = "?w1\<lparr>sinks := sinks w @ [\<lparr>path = file_name e conn, written = []\<rparr>]\<rparr>"
  have "writeHeader e ?w2 ?conn1 =
          Inr (?w1\<lparr>sinks := sinks w @
                 [\<lparr>path = file_name e conn,
                   written = json_Marshal e (header_record e conn) @ [CHR 0x0A]\<rparr>]\<rparr>)"
    by (simp add: writeHeader_Some [of ?conn1 "length (sinks w)"] sink_Write_new
        header_record_Writer)
  then show ?thesis
    using assms by (simp add: Rotate_def Let_def)
qed

lemma Rotate_failure:
  "mkdir_fails e (Format_date e (StartTime conn)) \<or> open_fails e (file_name e conn) \<Longrightarrow>
   \<exists>err w' conn'. Rotate e w conn = Inr (Some err, w', conn') \<and> sinks w' = sinks w"
  by (auto simp: Rotate_def Let_def)

text \<open>
  C8. A call of \<^verbatim>\<open>Rotate\<close> succeeds exactly when neither \<^verbatim>\<open>os.MkdirAll\<close> nor
  \<^verbatim>\<open>zstd.NewWriter\<close> fails. It then opens one new sink at the path
  \<open><StartTime as yyyy/MM/dd>/<uuid from the cookie>.<Sequence, %05d>.jsonl.zst\<close>, formed with
  the \<^verbatim>\<open>Sequence\<close> before the call; what it writes to that sink is the marshalled record
  whose only content is \<open>Metadata{UUID from the cookie, Sequence before the call,
  StartTime}\<close> followed by a newline; the connection after the call has that sink as its
  \<^verbatim>\<open>Writer\<close>, \<^verbatim>\<open>Expiration\<close> advanced by 10 minutes, \<^verbatim>\<open>Sequence\<close> incremented by 1, and
  every other field unchanged.
\<close>

theorem Rotate_opens_next_file:
  "(Rotate e w conn = Inr (None, w', conn')
     \<longleftrightarrow> \<not> mkdir_fails e (Format_date e (StartTime conn))
       \<and> \<not> open_fails e (file_name e conn)
       \<and> w' = w\<lparr>dirs := dirs w @ [Format_date e (StartTime conn)],
                 sinks := sinks w @
                   [\<lparr>path = file_name e conn,
                     written = json_Marshal e (header_record e conn) @ [CHR 0x0A]\<rparr>],
                 NewFileCount := NewFileCount w + 1\<rparr>
       \<and> conn' = conn\<lparr>Writer := Some (length (sinks w)),
                      Expiration := Expiration conn + 10 * Minute,
                      Sequence := Sequence conn + 1\<rparr>)
   \<and> file_name e conn =
       Format_date e (StartTime conn) @ ''/'' @ FromCookie e (Cookie (ID_conn conn)) @ ''.''
         @ Sprintf_05d (sint (Sequence conn)) @ ''.jsonl.zst''
   \<and> header_record e conn =
       \<lparr>Timestamp = zero_Time, RawIDM = [], Attributes_AR = [],
        Metadata = Some \<lparr>UUID = FromCookie e (Cookie (ID_conn conn)),
                         Sequence_md = Sequence conn, StartTime_md = StartTime conn\<rparr>\<rparr>"
proof -
  have "Rotate e w conn = Inr (None, w', conn')
     \<longleftrightarrow> \<not> mkdir_fails e (Format_date e (StartTime conn))
       \<and> \<not> open_fails e (file_name e conn)
       \<and> w' = w\<lparr>dirs := dirs w @ [Format_date e (StartTime conn)],
                 sinks := sinks w @
                   [\<lparr>path = file_name e conn,
                     written = json_Marshal e (header_record e conn) @ [CHR 0x0A]\<rparr>],
                 NewFileCount := NewFileCount w + 1\<rparr>
       \<and> conn' = conn\<lparr>Writer := Some (length (sinks w)),
                      Expiration := Expiration conn + 10 * Minute,
                      Sequence := Sequence conn + 1\<rparr>"
  proof (cases "mkdir_fails e (Format_date e (StartTime conn)) \<or> open_fails e (file_name e conn)")
    case True
    then obtain err w1 conn1 where "Rotate e w conn = Inr (Some err, w1, conn1)"
      using Rotate_failure [of e conn w] by blast
    then show ?thesis using True by auto
  next
    case False
    then show ?thesis using Rotate_success [of e conn w] by auto
  qed
  then show ?thesis by (simp add: file_name_def header_record_def)
qed

theorem Rotate_opens_next_file_witness:
  "Rotate ext0 world0 (conn0\<lparr>Sequence := 2\<rparr>) =
     Inr (None,
          \<lparr>ticks = 0, dirs = [''2019/03/01''],
           sinks = [\<lparr>path = ''2019/03/01/host_1_43690.00002.jsonl.zst'',
                     written = ''{host_1_43690 2}'' @ [CHR 0x0A]\<rparr>],
           NewFileCount = 1, SnapshotCount = 0\<rparr>,
          \<lparr>Inode = 7, ID_conn = sockid0, UID = 1000, Slice = [], StartTime = 500,
           Sequence = 3, Expiration = 900 + 600000000000, Writer = Some 0\<rparr>)"
proof -
  have c: "Cookie sockid0 = 43690" by (simp add: Cookie_def sockid0_def)
  have d: "decimal 43690 = ''43690''" "decimal 2 = ''2''" by (simp_all add: decimal.simps)
  have r: "replicate 4 CHR ''0'' = ''0000''" by (simp add: numeral_eq_Suc)
  have f: "file_name ext0 (conn0\<lparr>Sequence := 2\<rparr>) = ''2019/03/01/host_1_43690.00002.jsonl.zst''"
    by (simp add: file_name_def ext0_def conn0_def newConnection_def hdr0_def c d r Sprintf_05d_def)
  have h: "json_Marshal ext0 (header_record ext0 (conn0\<lparr>Sequence := 2\<rparr>)) = ''{host_1_43690 2}''"
    by (simp add: header_record_def ext0_def conn0_def newConnection_def hdr0_def c d)
  have m: "\<not> mkdir_fails ext0 (Format_date ext0 (StartTime (conn0\<lparr>Sequence := 2\<rparr>)))"
    "\<not> open_fails ext0 (file_name ext0 (conn0\<lparr>Sequence := 2\<rparr>))"
    "Format_date ext0 (StartTime (conn0\<lparr>Sequence := 2\<rparr>)) = ''2019/03/01''"
    by (simp_all add: ext0_def)
  show ?thesis
    using Rotate_opens_next_file [of ext0 world0 "conn0\<lparr>Sequence := 2\<rparr>"
        "world0\<lparr>dirs := dirs world0 @ [''2019/03/01''],
                 sinks := sinks world0 @
                   [\<lparr>path = ''2019/03/01/host_1_43690.00002.jsonl.zst'',
                     written = ''{host_1_43690 2}'' @ [CHR 0x0A]\<rparr>],
                 NewFileCount := NewFileCount world0 + 1\<rparr>"
        "conn0\<lparr>Sequence := 2, Writer := Some (length (sinks world0)),
                      Expiration := Expiration (conn0\<lparr>Sequence := 2\<rparr>) + 10 * Minute,
                      Sequence := Sequence (conn0\<lparr>Sequence := 2\<rparr>) + 1\<rparr>"]
      m f h
    by (simp add: world0_def conn0_def newConnection_def hdr0_def Minute_def)
qed



section \<open>queue\<close>

text \<open>
  C5. For a record whose header parses with cookie zero, \<^verbatim>\<open>queue\<close> returns the error
  \<open>Cookie = 0\<close> and leaves the saver and the world as they were: the connections map, the
  marshaller channels and the opened sinks are the same.
\<close>

theorem queue_zero_cookie:
  assumes "fst (Parse e (RawIDM msg)) = Some idm" and "Cookie (ID idm) = 0"
  shows "queue e w svr msg = Inr (Some ErrCookieZero, w, svr)"
  using assms by (simp add: queue_def)

theorem queue_zero_cookie_witness:
  "queue ext0 world0 (NewSaver ''mlab1'' ''abc01'' 3) (rec0 [1, 0, 0])
     = Inr (Some ErrCookieZero, world0, NewSaver ''mlab1'' ''abc01'' 3)"
proof -
  have p: "fst (Parse ext0 (RawIDM (rec0 [1, 0, 0])))
             = Some (hdr0\<lparr>IDiagState := 1, ID := sockid0\<lparr>IDiagCookie := [0, 0]\<rparr>\<rparr>)"
    by (simp add: ext0_def rec0_def parse0_def)
  have c: "Cookie (ID (hdr0\<lparr>IDiagState := 1, ID := sockid0\<lparr>IDiagCookie := [0, 0]\<rparr>\<rparr>)) = 0"
    by (simp add: Cookie_def)
  show ?thesis by (rule queue_zero_cookie [OF p c])
qed

lemma Rotate_result:
  "\<exists>r w' conn'. Rotate e w conn = Inr (r, w', conn')
     \<and> StartTime conn' = StartTime conn \<and> Inode conn' = Inode conn
     \<and> ID_conn conn' = ID_conn conn \<and> UID conn' = UID conn"
proof (cases "mkdir_fails e (Format_date e (StartTime conn)) \<or> open_fails e (file_name e conn)")
  case True
  then show ?thesis by (auto simp: Rotate_def Let_def)
next
  case False
  then show ?thesis using Rotate_success [of e conn w] by simp
qed

lemma queue_conn_result:
  "\<exists>r w' svr' conn'. queue_conn e w svr q cookie conn msg = Inr (r, w', svr')
     \<and> Connections svr' cookie = Some conn'
     \<and> StartTime conn' = StartTime conn \<and> Inode conn' = Inode conn
     \<and> ID_conn conn' = ID_conn conn \<and> UID conn' = UID conn
     \<and> (\<forall>c. c \<noteq> cookie \<longrightarrow> Connections svr' c = Connections svr c)
     \<and> stats svr' = stats svr"
proof -
  obtain now w1 where t: "time_Now e w = (now, w1)" by (cases "time_Now e w")
  let ?expired = "Expiration conn < now \<and> Writer conn \<noteq> None"
  let ?conn1 = "if ?expired then conn\<lparr>Writer := None\<rparr> else conn"
  obtain r w2 conn2 where rot: "Rotate e w1 ?conn1 = Inr (r, w2, conn2)"
    and keep: "StartTime conn2 = StartTime ?conn1" "Inode conn2 = Inode ?conn1"
      "ID_conn conn2 = ID_conn ?conn1" "UID conn2 = UID ?conn1"
    using Rotate_result [of e w1 ?conn1] by blast
  show ?thesis
  proof (cases "Writer ?conn1 = None")
    case True
    then show ?thesis
      using t rot keep
      by (cases r) (auto simp: queue_conn_def Let_def split: if_splits)
  next
    case False
    then show ?thesis
      using t by (auto simp: queue_conn_def Let_def split: if_splits)
  qed
qed

text \<open>
  C6, as amended. On a saver with at least one marshaller, for a record whose cookie is
  not zero and not in the connections map: if the parsed \<^verbatim>\<open>IDiagState\<close> is \<^verbatim>\<open>FIN_WAIT1\<close>
  (4) or greater, \<^verbatim>\<open>queue\<close> returns nil and leaves the saver and the world as they were
  (no connection, no file, no task); if the state is below \<^verbatim>\<open>FIN_WAIT1\<close>, \<^verbatim>\<open>queue\<close>
  returns, and the connections map then holds for the cookie a connection whose
  \<^verbatim>\<open>StartTime\<close> is the timestamp of the record (and whose inode, socket id and uid are
  those of the header), the entries of the other cookies being unchanged.
\<close>

theorem queue_unseen_cookie:
  assumes "fst (Parse e (RawIDM msg)) = Some idm"
    and "Cookie (ID idm) \<noteq> 0"
    and "Connections svr (Cookie (ID idm)) = None"
    and "MarshalChans svr \<noteq> []"
  shows "(FIN_WAIT1 \<le> IDiagState idm \<longrightarrow> queue e w svr msg = Inr (None, w, svr))
       \<and> (IDiagState idm < FIN_WAIT1 \<longrightarrow>
            (\<exists>r w' svr' conn. queue e w svr msg = Inr (r, w', svr')
               \<and> Connections svr' (Cookie (ID idm)) = Some conn
               \<and> StartTime conn = Timestamp msg
               \<and> Inode conn = IDiagInode idm \<and> ID_conn conn = ID idm \<and> UID conn = IDiagUID idm
               \<and> (\<forall>c. c \<noteq> Cookie (ID idm) \<longrightarrow> Connections svr' c = Connections svr c)))"
proof (intro conjI impI)
  assume "FIN_WAIT1 \<le> IDiagState idm"
  moreover have "Suc 0 \<le> length (MarshalChans svr)"
    using assms(4) by (cases "MarshalChans svr") simp_all
  ultimately show "queue e w svr msg = Inr (None, w, svr)"
    using assms by (simp add: queue_def)
next
  assume lt: "IDiagState idm < FIN_WAIT1"
  let ?cookie = "Cookie (ID idm)"
  let ?q = "unat ?cookie mod length (MarshalChans svr)"
  obtain now w1 where t: "time_Now e w = (now, w1)" by (cases "time_Now e w")
  let ?conn = "newConnection idm (Timestamp msg) now"
  let ?svr1 = "svr\<lparr>Connections := (Connections svr)(?cookie \<mapsto> ?conn)\<rparr>"
  have n: "Suc 0 \<le> length (MarshalChans svr)"
    using assms(4) by (cases "MarshalChans svr") simp_all
  have q: "queue e w svr msg = queue_conn e w1 ?svr1 ?q ?cookie ?conn msg"
    using assms lt t n by (simp add: queue_def Let_def not_le [symmetric])
  obtain r w' svr' conn' where
    "queue_conn e w1 ?svr1 ?q ?cookie ?conn msg = Inr (r, w', svr')"
    "Connections svr' ?cookie = Some conn'"
    "StartTime conn' = StartTime ?conn" "Inode conn' = Inode ?conn"
    "ID_conn conn' = ID_conn ?conn" "UID conn' = UID ?conn"
    "\<forall>c. c \<noteq> ?cookie \<longrightarrow> Connections svr' c = Connections ?svr1 c"
    using queue_conn_result [of e w1 ?svr1 ?q ?cookie ?conn msg] by blast
  then show "\<exists>r w' svr' conn. queue e w svr msg = Inr (r, w', svr')
               \<and> Connections svr' ?cookie = Some conn
               \<and> StartTime conn = Timestamp msg
               \<and> Inode conn = IDiagInode idm \<and> ID_conn conn = ID idm \<and> UID conn = IDiagUID idm
               \<and> (\<forall>c. c \<noteq> ?cookie \<longrightarrow> Connections svr' c = Connections svr c)"
    using q by (simp add: newConnection_def)
qed

text \<open>
  C6 as stated fails on a saver without marshallers (\<^verbatim>\<open>NewSaver\<close> with
  \<open>numMarshaller = 0\<close>): for an unseen non-zero cookie in state \<^verbatim>\<open>TIME_WAIT\<close> (6)
  \<^verbatim>\<open>queue\<close> returns \<^verbatim>\<open>ErrNoMarshallers\<close>, not nil, and for one in state \<^verbatim>\<open>ESTABLISHED\<close>
  it returns the same error without creating a connection.
\<close>

theorem queue_no_marshallers_counterexample:
  "queue ext0 world0 (NewSaver ''mlab1'' ''abc01'' 0) (rec0 [6, 170, 170])
     = Inr (Some ErrNoMarshallers, world0, NewSaver ''mlab1'' ''abc01'' 0)
   \<and> queue ext0 world0 (NewSaver ''mlab1'' ''abc01'' 0) (rec0 [1, 170, 170])
     = Inr (Some ErrNoMarshallers, world0, NewSaver ''mlab1'' ''abc01'' 0)
   \<and> Connections (NewSaver ''mlab1'' ''abc01'' 0) 43690 = None"
  by (simp add: queue_def ext0_def rec0_def parse0_def Cookie_def NewSaver_def)

lemma NewSaver_3_chans: "MarshalChans (NewSaver h p 3) = [[], [], []]"
  by (simp add: NewSaver_def numeral_eq_Suc)

theorem queue_unseen_cookie_witness:
  "queue ext0 world0 (NewSaver ''mlab1'' ''abc01'' 3) (rec0 [6, 170, 170])
     = Inr (None, world0, NewSaver ''mlab1'' ''abc01'' 3)
   \<and> (\<exists>r w' svr' conn.
         queue ext0 world0 (NewSaver ''mlab1'' ''abc01'' 3) (rec0 [1, 170, 170])
           = Inr (r, w', svr')
         \<and> Connections svr' 43690 = Some conn \<and> StartTime conn = 500)"
proof -
  let ?svr = "NewSaver ''mlab1'' ''abc01'' 3"
  let ?h6 = "hdr0\<lparr>IDiagState := 6, ID := sockid0\<lparr>IDiagCookie := [170, 170]\<rparr>\<rparr>"
  let ?h1 = "hdr0\<lparr>IDiagState := 1, ID := sockid0\<lparr>IDiagCookie := [170, 170]\<rparr>\<rparr>"
  have p6: "fst (Parse ext0 (RawIDM (rec0 [6, 170, 170]))) = Some ?h6"
    and p1: "fst (Parse ext0 (RawIDM (rec0 [1, 170, 170]))) = Some ?h1"
    by (simp_all add: ext0_def rec0_def parse0_def)
  have c6: "Cookie (ID ?h6) = 43690" and c1: "Cookie (ID ?h1) = 43690"
    by (simp_all add: Cookie_def)
  have n6: "Cookie (ID ?h6) \<noteq> 0" and n1: "Cookie (ID ?h1) \<noteq> 0"
    unfolding c6 c1 by simp_all
  have m6: "Connections ?svr (Cookie (ID ?h6)) = None"
    and m1: "Connections ?svr (Cookie (ID ?h1)) = None"
    by (simp_all add: NewSaver_def)
  have ch: "MarshalChans ?svr \<noteq> []"
    by (simp add: NewSaver_3_chans)
  have "queue ext0 world0 ?svr (rec0 [6, 170, 170]) = Inr (None, world0, ?svr)"
    using queue_unseen_cookie [OF p6 n6 m6 ch, of world0] by (simp add: FIN_WAIT1_def)
  moreover have "\<exists>r w' svr' conn.
         queue ext0 world0 ?svr (rec0 [1, 170, 170]) = Inr (r, w', svr')
         \<and> Connections svr' 43690 = Some conn \<and> StartTime conn = 500"
    using queue_unseen_cookie [OF p1 n1 m1 ch, of world0] unfolding c1
    by (simp add: FIN_WAIT1_def rec0_def) blast
  ultimately show ?thesis by simp
qed


section \<open>endConn\<close>

text \<open>
  C9, as amended. On a saver with \<open>N \<ge> 1\<close> marshallers, for a cookie in the connections
  map: if the connection has a writer, \<^verbatim>\<open>endConn\<close> sends a close task (nil message, that
  writer) on the channel with index \<open>cookie mod N\<close>, changes no other channel, and removes
  the cookie from the map; if the connection's writer is nil, no task is sent on any
  channel.
\<close>

theorem endConn_sends_close_task:
  assumes "Connections svr cookie = Some conn" and "MarshalChans svr \<noteq> []"
  shows "(\<forall>wr. Writer conn = Some wr \<longrightarrow>
            endConn svr cookie =
              Inr (svr\<lparr>MarshalChans :=
                         (MarshalChans svr)
                           [unat cookie mod length (MarshalChans svr) :=
                              MarshalChans svr ! (unat cookie mod length (MarshalChans svr))
                                @ [Task None (Some wr)]],
                       Connections := (Connections svr)(cookie := None)\<rparr>))
       \<and> (Writer conn = None \<longrightarrow>
            (\<exists>svr'. endConn svr cookie = Inr svr' \<and> MarshalChans svr' = MarshalChans svr))"
  using assms by (auto simp: endConn_def send_def Let_def)

theorem endConn_sends_close_task_witness:
  "endConn ((NewSaver ''mlab1'' ''abc01'' 3)
              \<lparr>Connections := [5 \<mapsto> conn0\<lparr>Writer := Some 0\<rparr>]\<rparr>) 5
     = Inr ((NewSaver ''mlab1'' ''abc01'' 3)
              \<lparr>MarshalChans := [[], [], [Task None (Some 0)]], Connections := Map.empty\<rparr>)"
proof -
  let ?svr = "(NewSaver ''mlab1'' ''abc01'' 3)\<lparr>Connections := [5 \<mapsto> conn0\<lparr>Writer := Some 0\<rparr>]\<rparr>"
  have c: "Connections ?svr 5 = Some (conn0\<lparr>Writer := Some 0\<rparr>)" by simp
  have m: "MarshalChans ?svr = [[], [], []]" by (simp add: NewSaver_3_chans)
  then have n: "MarshalChans ?svr \<noteq> []" by simp
  have q: "unat (5::64 word) mod 3 = 2" by simp
  show ?thesis
    using endConn_sends_close_task [OF c n] m q
    by (simp add: NewSaver_def)
qed

text \<open>
  C9 as stated fails for a connection whose writer is nil (as it is after a failed
  \<^verbatim>\<open>Rotate\<close>): \<^verbatim>\<open>endConn\<close> returns with the saver as it was, the cookie still in the map
  and no task on any channel.
\<close>

theorem endConn_nil_writer_counterexample:
  "Writer conn0 = None
   \<and> endConn ((NewSaver ''mlab1'' ''abc01'' 3)\<lparr>Connections := [5 \<mapsto> conn0]\<rparr>) 5
       = Inr ((NewSaver ''mlab1'' ''abc01'' 3)\<lparr>Connections := [5 \<mapsto> conn0]\<rparr>)
   \<and> Connections ((NewSaver ''mlab1'' ''abc01'' 3)\<lparr>Connections := [5 \<mapsto> conn0]\<rparr>) 5
       = Some conn0
   \<and> MarshalChans ((NewSaver ''mlab1'' ''abc01'' 3)\<lparr>Connections := [5 \<mapsto> conn0]\<rparr>)
       = [[], [], []]"
  by (simp add: endConn_def conn0_def newConnection_def NewSaver_3_chans)



section \<open>swapAndQueue and the counters\<close>

lemma queue_stats:
  assumes "queue e w svr msg = Inr (r, w', svr')"
  shows "stats svr' = stats svr"
proof (cases "fst (Parse e (RawIDM msg))")
  case None
  then show ?thesis using assms by (simp add: queue_def)
next
  case (Some idm)
  let ?cookie = "Cookie (ID idm)"
  let ?q = "unat ?cookie mod length (MarshalChans svr)"
  show ?thesis
  proof (cases "?cookie = 0 \<or> length (MarshalChans svr) < 1
                 \<or> (Connections svr ?cookie = None \<and> FIN_WAIT1 \<le> IDiagState idm)")
    case True
    then show ?thesis using assms Some by (auto simp: queue_def Let_def split: if_splits)
  next
    case False
    show ?thesis
    proof (cases "Connections svr ?cookie")
      case None
      obtain now w1 where t: "time_Now e w = (now, w1)" by (cases "time_Now e w")
      let ?conn = "newConnection idm (Timestamp msg) now"
      let ?svr1 = "svr\<lparr>Connections := (Connections svr)(?cookie \<mapsto> ?conn)\<rparr>"
      have "queue e w svr msg = queue_conn e w1 ?svr1 ?q ?cookie ?conn msg"
        using False Some None t by (simp add: queue_def Let_def)
      then show ?thesis
        using assms queue_conn_result [of e w1 ?svr1 ?q ?cookie ?conn msg] by auto
    next
      case (Some conn)
      have "queue e w svr msg = queue_conn e w svr ?q ?cookie conn msg"
        using False \<open>fst (Parse e (RawIDM msg)) = Some idm\<close> Some
        by (simp add: queue_def Let_def)
      then show ?thesis
        using assms queue_conn_result [of e w svr ?q ?cookie conn msg] by auto
    qed
  qed
qed

lemma swapAndQueue_step:
  assumes "swapAndQueue e w svr pm = Inr (w', svr')"
  shows "TotalCount (stats svr') = TotalCount (stats svr) + 1
       \<and> (NewCount (stats svr') = NewCount (stats svr)
            \<and> DiffCount (stats svr') = DiffCount (stats svr)
          \<or> NewCount (stats svr') = NewCount (stats svr) + 1
            \<and> DiffCount (stats svr') = DiffCount (stats svr)
          \<or> NewCount (stats svr') = NewCount (stats svr)
            \<and> DiffCount (stats svr') = DiffCount (stats svr) + 1)"
proof -
  obtain old err c where u: "Cache_Update e (cache svr) pm = (old, err, c)"
    by (cases "Cache_Update e (cache svr) pm") auto
  show ?thesis
    using assms u
    by (auto simp: swapAndQueue_def Let_def IncTotalCount_def IncNewCount_def IncDiffCount_def
        split: if_splits option.splits sum.splits prod.splits dest!: queue_stats)
qed

lemma sint_succ_64:
  fixes x :: "64 word"
  assumes "sint x < 2 ^ 63 - 1"
  shows "sint (x + 1) = sint x + 1"
proof -
  have lo: "- (2 ^ 63) \<le> sint x" using sint_ge [of x] by simp
  have "sint (x + 1) = signed_take_bit 63 (sint x + 1)"
    by (simp add: sint_word_ariths)
  also have "\<dots> = sint x + 1"
    using lo assms by (intro signed_take_bit_int_eq_self) auto
  finally show ?thesis .
qed

lemma swapAndQueue_all_inv:
  assumes "swapAndQueue_all e w svr pms = Inr (w', svr')"
    and "0 \<le> sint (NewCount (stats svr))" and "0 \<le> sint (DiffCount (stats svr))"
    and "sint (NewCount (stats svr)) + sint (DiffCount (stats svr)) \<le> sint (TotalCount (stats svr))"
    and "sint (TotalCount (stats svr)) + int (length pms) < 2 ^ 63"
  shows "sint (TotalCount (stats svr')) = sint (TotalCount (stats svr)) + int (length pms)
       \<and> 0 \<le> sint (NewCount (stats svr')) \<and> 0 \<le> sint (DiffCount (stats svr'))
       \<and> sint (NewCount (stats svr')) + sint (DiffCount (stats svr'))
            \<le> sint (TotalCount (stats svr'))"
  using assms
proof (induction pms arbitrary: w svr)
  case Nil
  then show ?case by simp
next
  case (Cons pm pms)
  from Cons.prems(1) obtain w1 svr1 where
    s: "swapAndQueue e w svr pm = Inr (w1, svr1)"
    and r: "swapAndQueue_all e w1 svr1 pms = Inr (w', svr')"
    by (auto split: sum.splits)
  let ?T = "TotalCount (stats svr)" and ?N = "NewCount (stats svr)"
  let ?D = "DiffCount (stats svr)"
  have room: "sint ?T < 2 ^ 63 - 1" using Cons.prems(5) by simp
  have nr: "sint ?N < 2 ^ 63 - 1" and dr: "sint ?D < 2 ^ 63 - 1"
    using Cons.prems(2-4) room by linarith+
  have T1: "sint (TotalCount (stats svr1)) = sint ?T + 1"
    using swapAndQueue_step [OF s] sint_succ_64 [OF room] by simp
  have ND: "0 \<le> sint (NewCount (stats svr1)) \<and> 0 \<le> sint (DiffCount (stats svr1))
          \<and> sint (NewCount (stats svr1)) + sint (DiffCount (stats svr1)) \<le> sint ?T + 1"
    using swapAndQueue_step [OF s] sint_succ_64 [OF nr] sint_succ_64 [OF dr] Cons.prems(2-4)
    by auto
  have "sint (TotalCount (stats svr')) = sint (TotalCount (stats svr1)) + int (length pms)
       \<and> 0 \<le> sint (NewCount (stats svr')) \<and> 0 \<le> sint (DiffCount (stats svr'))
       \<and> sint (NewCount (stats svr')) + sint (DiffCount (stats svr'))
            \<le> sint (TotalCount (stats svr'))"
    using Cons.prems(5) T1 ND by (intro Cons.IH [OF r]) auto
  then show ?case using T1 by simp
qed

text \<open>
  C10. Every call of \<^verbatim>\<open>swapAndQueue\<close> that returns has incremented \<^verbatim>\<open>TotalCount\<close> by
  one and at most one of \<^verbatim>\<open>NewCount\<close> and \<^verbatim>\<open>DiffCount\<close>, by one. Hence after any
  sequence of calls on a saver whose counters start with
  \<open>0 \<le> NewCount\<close>, \<open>0 \<le> DiffCount\<close> and \<open>NewCount + DiffCount \<le> TotalCount\<close> (as those of
  \<^verbatim>\<open>NewSaver\<close> do), \<open>TotalCount\<close> has grown by the number of calls and
  \<open>TotalCount \<ge> NewCount + DiffCount\<close> still holds, so the derived count
  \<open>TotalCount - (NewCount + DiffCount)\<close> is not negative. The counters are \<^verbatim>\<open>int64\<close>; the
  sequence is one that does not take \<^verbatim>\<open>TotalCount\<close> past \<open>2^63 - 1\<close>.
\<close>

theorem swapAndQueue_counters:
  "(swapAndQueue e w svr pm = Inr (w', svr') \<longrightarrow>
      TotalCount (stats svr') = TotalCount (stats svr) + 1
      \<and> (NewCount (stats svr') = NewCount (stats svr)
           \<and> DiffCount (stats svr') = DiffCount (stats svr)
         \<or> NewCount (stats svr') = NewCount (stats svr) + 1
           \<and> DiffCount (stats svr') = DiffCount (stats svr)
         \<or> NewCount (stats svr') = NewCount (stats svr)
           \<and> DiffCount (stats svr') = DiffCount (stats svr) + 1))
   \<and> (swapAndQueue_all e w svr pms = Inr (w'', svr'')
      \<and> 0 \<le> sint (NewCount (stats svr)) \<and> 0 \<le> sint (DiffCount (stats svr))
      \<and> sint (NewCount (stats svr)) + sint (DiffCount (stats svr))
           \<le> sint (TotalCount (stats svr))
      \<and> sint (TotalCount (stats svr)) + int (length pms) < 2 ^ 63 \<longrightarrow>
      sint (TotalCount (stats svr'')) = sint (TotalCount (stats svr)) + int (length pms)
      \<and> 0 \<le> sint (NewCount (stats svr'')) \<and> 0 \<le> sint (DiffCount (stats svr''))
      \<and> sint (NewCount (stats svr'')) + sint (DiffCount (stats svr''))
           \<le> sint (TotalCount (stats svr'')))"
  using swapAndQueue_step [of e w svr pm w' svr']
    swapAndQueue_all_inv [of e w svr pms w'' svr'']
  by blast

theorem swapAndQueue_counters_witness:
  "\<exists>w' svr'.
     swapAndQueue_all ext0 world0
       ((NewSaver ''mlab1'' ''abc01'' 3)
          \<lparr>cache := NewCache\<lparr>previous_map := [5 \<mapsto> rec0 [1, 5]]\<rparr>\<rparr>)
       [rec0 [2, 5], rec0 [1, 7], rec0 [1, 0]] = Inr (w', svr')
     \<and> sint (TotalCount (stats svr')) = 3
     \<and> sint (NewCount (stats svr')) + sint (DiffCount (stats svr'))
          \<le> sint (TotalCount (stats svr'))"
proof -
  let ?svr = "(NewSaver ''mlab1'' ''abc01'' 3)
                \<lparr>cache := NewCache\<lparr>previous_map := [5 \<mapsto> rec0 [1, 5]]\<rparr>\<rparr>"
  let ?pms = "[rec0 [2, 5], rec0 [1, 7], rec0 [1, 0]]"
  have st: "stats ?svr = \<lparr>TotalCount = 0, NewCount = 0, DiffCount = 0, ExpiredCount = 0\<rparr>"
    by (simp add: NewSaver_def)
  have ch: "MarshalChans ?svr = [[], [], []]"
    by (simp add: NewSaver_3_chans)
  have "\<exists>w' svr'. swapAndQueue_all ext0 world0 ?svr ?pms = Inr (w', svr')"
    by (simp add: swapAndQueue_def Cache_Update_def queue_def queue_conn_def Rotate_def
        writeHeader_def time_Now_def ext0_def parse0_def compare0_def Compare_def rec0_def
        Cookie_def NewSaver_def NewCache_def world0_def Let_def count_snapshot_def
        newConnection_def FIN_WAIT1_def IncTotalCount_def IncNewCount_def IncDiffCount_def)
  then obtain w' svr' where run: "swapAndQueue_all ext0 world0 ?svr ?pms = Inr (w', svr')"
    by blast
  have "sint (TotalCount (stats svr')) = sint (TotalCount (stats ?svr)) + int (length ?pms)
      \<and> 0 \<le> sint (NewCount (stats svr')) \<and> 0 \<le> sint (DiffCount (stats svr'))
      \<and> sint (NewCount (stats svr')) + sint (DiffCount (stats svr'))
           \<le> sint (TotalCount (stats svr'))"
    using swapAndQueue_counters [of ext0 world0 ?svr "rec0 [2, 5]" w' svr' ?pms w' svr'] run
    unfolding st by simp
  then show ?thesis using run unfolding st by auto
qed



section \<open>MessageSaverLoop: the reported totals\<close>

lemma unat_capacity: "unat capacity = 10 * maxSwitchSpeed div 8"
  by (simp add: capacity_def maxSwitchSpeed_def)

lemma over_capacity:
  assumes "unat r + 10 * maxSwitchSpeed div 8 < unat t"
  shows "capacity + r < t"
proof -
  have "unat t < 2 ^ 64" using unsigned_less [of t] by simp
  then have "unat capacity + unat r < 2 ^ LENGTH(64)"
    using assms by (simp add: unat_capacity)
  then have "unat (capacity + r) = unat capacity + unat r"
    by (rule unat_add_lem [THEN iffD1])
  then show ?thesis
    using assms by (simp add: word_less_nat_alt unat_capacity)
qed

lemma within_capacity:
  assumes "\<not> capacity + r < t"
  shows "unat t \<le> unat r + 10 * maxSwitchSpeed div 8"
proof (cases "unat capacity + unat r < 2 ^ LENGTH(64)")
  case True
  then have "unat (capacity + r) = unat capacity + unat r"
    by (rule unat_add_lem [THEN iffD1])
  then show ?thesis
    using assms by (simp add: word_less_nat_alt unat_capacity)
next
  case False
  moreover have "unat t < 2 ^ 64" using unsigned_less [of t] by simp
  ultimately show ?thesis by (simp add: unat_capacity)
qed

lemma report_sent_rejected:
  assumes "t < reportedSent s \<or> unat (reportedSent s) + 10 * maxSwitchSpeed div 8 < unat t"
  shows "report_sent t s =
           Inc_ErrorCount (if t < reportedSent s then ''totalSent < reportedSent''
                           else ''totalSent-reportedSent exceeds network capacity'') s"
  using assms over_capacity [of "reportedSent s" t] by (auto simp: report_sent_def)

lemma report_sent_accepted:
  assumes "reportedSent (report_sent t s) \<noteq> reportedSent s
           \<or> SendRateHistogram (report_sent t s) \<noteq> SendRateHistogram s"
  shows "reportedSent s \<le> t \<and> unat t \<le> unat (reportedSent s) + 10 * maxSwitchSpeed div 8
       \<and> report_sent t s = s\<lparr>SendRateHistogram := SendRateHistogram s @ [t - reportedSent s],
                               reportedSent := t\<rparr>"
  using assms within_capacity [of "reportedSent s" t]
  by (auto simp: report_sent_def Inc_ErrorCount_def split: if_splits)

lemma report_received_rejected:
  assumes "t < reportedReceived s
           \<or> unat (reportedReceived s) + 10 * maxSwitchSpeed div 8 < unat t"
  shows "report_received t s =
           Inc_ErrorCount (if t < reportedReceived s then ''totalReceived < reportedReceived''
                           else ''totalReceived-reportedReceived exceeds network capacity'') s"
  using assms over_capacity [of "reportedReceived s" t] by (auto simp: report_received_def)

lemma report_received_accepted:
  assumes "reportedReceived (report_received t s) \<noteq> reportedReceived s
           \<or> ReceiveRateHistogram (report_received t s) \<noteq> ReceiveRateHistogram s"
  shows "reportedReceived s \<le> t
       \<and> unat t \<le> unat (reportedReceived s) + 10 * maxSwitchSpeed div 8
       \<and> report_received t s =
           s\<lparr>ReceiveRateHistogram := ReceiveRateHistogram s @ [t - reportedReceived s],
             reportedReceived := t\<rparr>"
  using assms within_capacity [of "reportedReceived s" t]
  by (auto simp: report_received_def Inc_ErrorCount_def split: if_splits)

lemma report_sent_fields:
  "reportedSent s \<le> reportedSent (report_sent t s)"
  "reportedReceived (report_sent t s) = reportedReceived s"
  "ReceiveRateHistogram (report_sent t s) = ReceiveRateHistogram s"
  "lastReportTime (report_sent t s) = lastReportTime s"
  by (auto simp: report_sent_def Inc_ErrorCount_def)

lemma report_received_fields:
  "reportedReceived s \<le> reportedReceived (report_received t s)"
  "reportedSent (report_received t s) = reportedSent s"
  "SendRateHistogram (report_received t s) = SendRateHistogram s"
  "lastReportTime (report_received t s) = lastReportTime s"
  by (auto simp: report_received_def Inc_ErrorCount_def)

lemma loop_body_sent:
  "reportedSent (loop_body s i) =
     (if lastReportTime s < V4Time_Unix i
      then reportedSent (report_sent (total (sent_of s i))
             (s\<lparr>sentClosed := sentClosed s + rs i, receivedClosed := receivedClosed s + rr i\<rparr>))
      else reportedSent s)"
  "SendRateHistogram (loop_body s i) =
     (if lastReportTime s < V4Time_Unix i
      then SendRateHistogram (report_sent (total (sent_of s i))
             (s\<lparr>sentClosed := sentClosed s + rs i, receivedClosed := receivedClosed s + rr i\<rparr>))
      else SendRateHistogram s)"
  by (simp_all add: loop_body_def Let_def report_received_fields)

lemma loop_body_received:
  "reportedReceived (loop_body s i) =
     (if lastReportTime s < V4Time_Unix i
      then reportedReceived (report_received (total (received_of s i))
             (report_sent (total (sent_of s i))
               (s\<lparr>sentClosed := sentClosed s + rs i,
                  receivedClosed := receivedClosed s + rr i\<rparr>)))
      else reportedReceived s)"
  "ReceiveRateHistogram (loop_body s i) =
     (if lastReportTime s < V4Time_Unix i
      then ReceiveRateHistogram (report_received (total (received_of s i))
             (report_sent (total (sent_of s i))
               (s\<lparr>sentClosed := sentClosed s + rs i,
                  receivedClosed := receivedClosed s + rr i\<rparr>)))
      else ReceiveRateHistogram s)"
  by (simp_all add: loop_body_def Let_def)

lemma loop_body_mono:
  "reportedSent s \<le> reportedSent (loop_body s i)"
  "reportedReceived s \<le> reportedReceived (loop_body s i)"
proof -
  let ?s1 = "s\<lparr>sentClosed := sentClosed s + rs i, receivedClosed := receivedClosed s + rr i\<rparr>"
  have "reportedSent ?s1 \<le> reportedSent (report_sent (total (sent_of s i)) ?s1)"
    by (rule report_sent_fields)
  then show "reportedSent s \<le> reportedSent (loop_body s i)"
    by (simp add: loop_body_sent)
  have "reportedReceived (report_sent (total (sent_of s i)) ?s1)
          \<le> reportedReceived (report_received (total (received_of s i))
               (report_sent (total (sent_of s i)) ?s1))"
    by (rule report_received_fields)
  then show "reportedReceived s \<le> reportedReceived (loop_body s i)"
    by (simp add: loop_body_received report_sent_fields)
qed

lemma loop_mono:
  "reportedSent s \<le> reportedSent (MessageSaverLoop_accounting s is)
   \<and> reportedReceived s \<le> reportedReceived (MessageSaverLoop_accounting s is)"
proof (induction "is" arbitrary: s)
  case Nil
  then show ?case by simp
next
  case (Cons i "is")
  have "reportedSent s \<le> reportedSent (loop_body s i)"
    and "reportedReceived s \<le> reportedReceived (loop_body s i)"
    by (rule loop_body_mono)+
  then show ?case
    using Cons.IH [of "loop_body s i"] by (auto intro: order_trans)
qed

lemma loop_body_ErrorCount:
  "lastReportTime s < V4Time_Unix i \<Longrightarrow>
   ErrorCount (loop_body s i) =
     ErrorCount (report_received (total (received_of s i))
       (report_sent (total (sent_of s i))
         (s\<lparr>sentClosed := sentClosed s + rs i, receivedClosed := receivedClosed s + rr i\<rparr>)))"
  by (simp add: loop_body_def Let_def)

lemma report_received_ErrorCount_sent_labels:
  "l = ''totalSent < reportedSent'' \<or> l = ''totalSent-reportedSent exceeds network capacity''
   \<Longrightarrow> ErrorCount (report_received t s) l = ErrorCount s l"
  by (auto simp: report_received_def Inc_ErrorCount_def)

lemma report_sent_ErrorCount_received_labels:
  "l = ''totalReceived < reportedReceived''
     \<or> l = ''totalReceived-reportedReceived exceeds network capacity''
   \<Longrightarrow> ErrorCount (report_sent t s) l = ErrorCount s l"
  by (auto simp: report_sent_def Inc_ErrorCount_def)

text \<open>
  C7. Over any number of iterations of \<^verbatim>\<open>MessageSaverLoop\<close>, from any state of the
  loop, \<^verbatim>\<open>reportedSent\<close> and \<^verbatim>\<open>reportedReceived\<close> do not decrease. In an iteration that
  reports (the block's second is later than the last reported one), a new total that is
  smaller than the last reported total, or exceeds it by more than \<open>10*maxSwitchSpeed/8\<close>,
  leaves the reported total and the histogram as they were and increments the error
  counter of the matching label by one. An iteration changes a reported total or adds an
  observation to a histogram only when it reports a total that is neither: the reported
  total then becomes the new total, and the histogram observes the difference.
\<close>

theorem MessageSaverLoop_reported_totals:
  "reportedSent s \<le> reportedSent (MessageSaverLoop_accounting s is)
   \<and> reportedReceived s \<le> reportedReceived (MessageSaverLoop_accounting s is)
   \<and> (lastReportTime s < V4Time_Unix i
        \<and> (total (sent_of s i) < reportedSent s
           \<or> unat (reportedSent s) + 10 * maxSwitchSpeed div 8 < unat (total (sent_of s i)))
      \<longrightarrow> reportedSent (loop_body s i) = reportedSent s
        \<and> SendRateHistogram (loop_body s i) = SendRateHistogram s
        \<and> (let l = (if total (sent_of s i) < reportedSent s then ''totalSent < reportedSent''
                     else ''totalSent-reportedSent exceeds network capacity'')
           in ErrorCount (loop_body s i) l = ErrorCount s l + 1))
   \<and> (lastReportTime s < V4Time_Unix i
        \<and> (total (received_of s i) < reportedReceived s
           \<or> unat (reportedReceived s) + 10 * maxSwitchSpeed div 8
               < unat (total (received_of s i)))
      \<longrightarrow> reportedReceived (loop_body s i) = reportedReceived s
        \<and> ReceiveRateHistogram (loop_body s i) = ReceiveRateHistogram s
        \<and> (let l = (if total (received_of s i) < reportedReceived s
                     then ''totalReceived < reportedReceived''
                     else ''totalReceived-reportedReceived exceeds network capacity'')
           in ErrorCount (loop_body s i) l = ErrorCount s l + 1))
   \<and> (reportedSent (loop_body s i) \<noteq> reportedSent s
        \<or> SendRateHistogram (loop_body s i) \<noteq> SendRateHistogram s
      \<longrightarrow> lastReportTime s < V4Time_Unix i
        \<and> reportedSent s \<le> total (sent_of s i)
        \<and> unat (total (sent_of s i)) \<le> unat (reportedSent s) + 10 * maxSwitchSpeed div 8
        \<and> reportedSent (loop_body s i) = total (sent_of s i)
        \<and> SendRateHistogram (loop_body s i)
            = SendRateHistogram s @ [total (sent_of s i) - reportedSent s])
   \<and> (reportedReceived (loop_body s i) \<noteq> reportedReceived s
        \<or> ReceiveRateHistogram (loop_body s i) \<noteq> ReceiveRateHistogram s
      \<longrightarrow> lastReportTime s < V4Time_Unix i
        \<and> reportedReceived s \<le> total (received_of s i)
        \<and> unat (total (received_of s i))
            \<le> unat (reportedReceived s) + 10 * maxSwitchSpeed div 8
        \<and> reportedReceived (loop_body s i) = total (received_of s i)
        \<and> ReceiveRateHistogram (loop_body s i)
            = ReceiveRateHistogram s @ [total (received_of s i) - reportedReceived s])"
proof -
  let ?s1 = "s\<lparr>sentClosed := sentClosed s + rs i, receivedClosed := receivedClosed s + rr i\<rparr>"
  let ?ts = "total (sent_of s i)" and ?tr = "total (received_of s i)"
  let ?s2 = "report_sent ?ts ?s1"
  have mono: "reportedSent s \<le> reportedSent (MessageSaverLoop_accounting s is)
      \<and> reportedReceived s \<le> reportedReceived (MessageSaverLoop_accounting s is)"
    by (rule loop_mono)
  have sent_rej: "reportedSent (loop_body s i) = reportedSent s
        \<and> SendRateHistogram (loop_body s i) = SendRateHistogram s
        \<and> (let l = (if ?ts < reportedSent s then ''totalSent < reportedSent''
                     else ''totalSent-reportedSent exceeds network capacity'')
           in ErrorCount (loop_body s i) l = ErrorCount s l + 1)"
    if t: "lastReportTime s < V4Time_Unix i"
      and b: "?ts < reportedSent s \<or> unat (reportedSent s) + 10 * maxSwitchSpeed div 8 < unat ?ts"
  proof -
    have r: "?s2 = Inc_ErrorCount (if ?ts < reportedSent ?s1 then ''totalSent < reportedSent''
                           else ''totalSent-reportedSent exceeds network capacity'') ?s1"
      using b by (intro report_sent_rejected) simp
    show ?thesis
      using t r
      by (simp add: loop_body_sent loop_body_ErrorCount report_received_ErrorCount_sent_labels
          Inc_ErrorCount_def Let_def)
  qed
  have recv_rej: "reportedReceived (loop_body s i) = reportedReceived s
        \<and> ReceiveRateHistogram (loop_body s i) = ReceiveRateHistogram s
        \<and> (let l = (if ?tr < reportedReceived s then ''totalReceived < reportedReceived''
                     else ''totalReceived-reportedReceived exceeds network capacity'')
           in ErrorCount (loop_body s i) l = ErrorCount s l + 1)"
    if t: "lastReportTime s < V4Time_Unix i"
      and b: "?tr < reportedReceived s
              \<or> unat (reportedReceived s) + 10 * maxSwitchSpeed div 8 < unat ?tr"
  proof -
    have r: "report_received ?tr ?s2 =
               Inc_ErrorCount (if ?tr < reportedReceived ?s2
                               then ''totalReceived < reportedReceived''
                               else ''totalReceived-reportedReceived exceeds network capacity'') ?s2"
      using b by (intro report_received_rejected) (simp add: report_sent_fields)
    show ?thesis
      using t r
      by (simp add: loop_body_received loop_body_ErrorCount report_sent_fields
          report_sent_ErrorCount_received_labels Inc_ErrorCount_def Let_def)
  qed
  have sent_acc: "lastReportTime s < V4Time_Unix i
        \<and> reportedSent s \<le> ?ts
        \<and> unat ?ts \<le> unat (reportedSent s) + 10 * maxSwitchSpeed div 8
        \<and> reportedSent (loop_body s i) = ?ts
        \<and> SendRateHistogram (loop_body s i) = SendRateHistogram s @ [?ts - reportedSent s]"
    if c: "reportedSent (loop_body s i) \<noteq> reportedSent s
           \<or> SendRateHistogram (loop_body s i) \<noteq> SendRateHistogram s"
  proof -
    have t: "lastReportTime s < V4Time_Unix i"
      using c by (auto simp: loop_body_sent split: if_splits)
    then have "reportedSent ?s2 \<noteq> reportedSent ?s1 \<or> SendRateHistogram ?s2 \<noteq> SendRateHistogram ?s1"
      using c by (simp add: loop_body_sent)
    from report_sent_accepted [OF this] show ?thesis
      using t by (simp add: loop_body_sent)
  qed
  have recv_acc: "lastReportTime s < V4Time_Unix i
        \<and> reportedReceived s \<le> ?tr
        \<and> unat ?tr \<le> unat (reportedReceived s) + 10 * maxSwitchSpeed div 8
        \<and> reportedReceived (loop_body s i) = ?tr
        \<and> ReceiveRateHistogram (loop_body s i)
            = ReceiveRateHistogram s @ [?tr - reportedReceived s]"
    if c: "reportedReceived (loop_body s i) \<noteq> reportedReceived s
           \<or> ReceiveRateHistogram (loop_body s i) \<noteq> ReceiveRateHistogram s"
  proof -
    have t: "lastReportTime s < V4Time_Unix i"
      using c by (auto simp: loop_body_received split: if_splits)
    then have "reportedReceived (report_received ?tr ?s2) \<noteq> reportedReceived ?s2
               \<or> ReceiveRateHistogram (report_received ?tr ?s2) \<noteq> ReceiveRateHistogram ?s2"
      using c by (simp add: loop_body_received report_sent_fields)
    from report_received_accepted [OF this] show ?thesis
      using t by (simp add: loop_body_received report_sent_fields)
  qed
  show ?thesis
    using mono sent_rej recv_rej sent_acc recv_acc by blast
qed

theorem MessageSaverLoop_reported_totals_witness:
  "reportedSent
     (loop_body (loop_init\<lparr>reportedSent := 1073741824\<rparr>)
        \<lparr>V4Time_Unix = 100, sent_live4 = 524288000, received_live4 = 7, sent_live6 = 0,
         received_live6 = 0, rs = 0, rr = 0\<rparr>) = 1073741824
   \<and> ErrorCount
     (loop_body (loop_init\<lparr>reportedSent := 1073741824\<rparr>)
        \<lparr>V4Time_Unix = 100, sent_live4 = 524288000, received_live4 = 7, sent_live6 = 0,
         received_live6 = 0, rs = 0, rr = 0\<rparr>) ''totalSent < reportedSent'' = 1
   \<and> reportedReceived
     (loop_body (loop_init\<lparr>reportedSent := 1073741824\<rparr>)
        \<lparr>V4Time_Unix = 100, sent_live4 = 524288000, received_live4 = 7, sent_live6 = 0,
         received_live6 = 0, rs = 0, rr = 0\<rparr>) = 7"
proof -
  let ?s = "loop_init\<lparr>reportedSent := 1073741824\<rparr>"
  let ?i = "\<lparr>V4Time_Unix = 100, sent_live4 = 524288000, received_live4 = 7, sent_live6 = 0,
         received_live6 = 0, rs = 0, rr = 0\<rparr>"
  have t: "lastReportTime ?s < V4Time_Unix ?i" by (simp add: loop_init_def)
  have ts: "total (sent_of ?s ?i) = 524288000" and tr: "total (received_of ?s ?i) = 7"
    by (simp_all add: total_def sent_of_def received_of_def loop_init_def)
  have r: "reportedSent ?s = 1073741824" "reportedReceived ?s = 0"
    "ErrorCount ?s ''totalSent < reportedSent'' = 0" by (simp_all add: loop_init_def)
  have lt: "total (sent_of ?s ?i) < reportedSent ?s" unfolding ts r by simp
  have ch: "reportedReceived (loop_body ?s ?i) \<noteq> reportedReceived ?s"
    by (simp add: loop_body_def Let_def loop_init_def report_sent_def report_received_def
        Inc_ErrorCount_def total_def sent_of_def received_of_def capacity_def maxSwitchSpeed_def)
  have e0: "ErrorCount loop_init ''totalSent < reportedSent'' = 0"
    by (simp add: loop_init_def)
  show ?thesis
    using MessageSaverLoop_reported_totals [of ?s "[]" ?i] t lt ch
    unfolding ts tr r by (simp add: Let_def e0)
qed


end
